theory Spec2Isabelle
  imports Main
begin

section \<open>Python strings\<close>

text \<open>
  A Python \<open>str\<close> is modelled as a \<open>string\<close>; every \<open>char\<close> stands for one code point
  below 256, so \<open>length\<close> is Python's \<open>len\<close>.  The functions below are the string
  methods \<open>daily_commits.py\<close> calls.
\<close>

type_synonym path = string

definition newline :: char where
  "newline = CHR 0x0A"

text \<open>\<open>str.isspace\<close> on the code points below 256.\<close>

definition is_space :: "char \<Rightarrow> bool" where
  "is_space c =
     (let n = (of_char c :: nat)
      in (9 \<le> n \<and> n \<le> 13) \<or> (28 \<le> n \<and> n \<le> 32) \<or> n = 133 \<or> n = 160)"

text \<open>\<open>s.strip()\<close>\<close>

definition strip :: "string \<Rightarrow> string" where
  "strip s = rev (dropWhile is_space (rev (dropWhile is_space s)))"

text \<open>\<open>s.startswith(p)\<close>\<close>

fun startswith :: "string \<Rightarrow> string \<Rightarrow> bool" where
  "startswith s [] = True"
| "startswith [] (p # ps) = False"
| "startswith (c # cs) (p # ps) = (c = p \<and> startswith cs ps)"

text \<open>\<open>s.endswith(p)\<close>\<close>

definition endswith :: "string \<Rightarrow> string \<Rightarrow> bool" where
  "endswith s p = startswith (rev s) (rev p)"

text \<open>\<open>p in s\<close> for two strings: \<open>p\<close> occurs in \<open>s\<close> as a substring.\<close>

fun contains :: "string \<Rightarrow> string \<Rightarrow> bool" where
  "contains p [] = (p = [])"
| "contains p (c # cs) = (startswith (c # cs) p \<or> contains p cs)"

text \<open>\<open>s.split('\n')\<close>: never empty, \<open>''.split('\n') == ['']\<close>.\<close>

fun split_nl :: "string \<Rightarrow> string list" where
  "split_nl [] = [[]]"
| "split_nl (c # cs) =
     (if c = newline then [] # split_nl cs
      else (case split_nl cs of
              [] \<Rightarrow> [[c]]
            | l # ls \<Rightarrow> (c # l) # ls))"

text \<open>\<open>'\n'.join(xs)\<close>\<close>

fun join_nl :: "string list \<Rightarrow> string" where
  "join_nl [] = []"
| "join_nl [l] = l"
| "join_nl (l # m # ms) = l @ newline # join_nl (m # ms)"

text \<open>\<open>s.lower()\<close> on the code points below 256.\<close>

definition lower_char :: "char \<Rightarrow> char" where
  "lower_char c =
     (let n = (of_char c :: nat)
      in if (65 \<le> n \<and> n \<le> 90) \<or> (192 \<le> n \<and> n \<le> 222 \<and> n \<noteq> 215)
         then char_of (n + 32) else c)"

definition lower :: "string \<Rightarrow> string" where
  "lower s = map lower_char s"

text \<open>The number of bytes of the UTF-8 encoding of a string of code points below 256.\<close>

definition utf8_size :: "string \<Rightarrow> nat" where
  "utf8_size s = sum_list (map (\<lambda>c. if (of_char c :: nat) < 128 then 1 else 2) s)"

subsection \<open>Paths\<close>

text \<open>\<open>Path.name\<close>: the final component; \<open>Path.suffix\<close>: from the last dot of the name,
  when that dot is neither its first nor its last character.\<close>

definition path_name :: "path \<Rightarrow> string" where
  "path_name p = rev (takeWhile (\<lambda>c. c \<noteq> CHR ''/'') (rev p))"

definition path_suffix :: "path \<Rightarrow> string" where
  "path_suffix p =
     (let name = path_name p;
          ext = rev (takeWhile (\<lambda>c. c \<noteq> CHR ''.'') (rev name))
      in if CHR ''.'' \<in> set name \<and> length ext + 1 < length name \<and> ext \<noteq> []
         then CHR ''.'' # ext else [])"

section \<open>Data model\<close>

text \<open>An exception, carrying \<open>str(e)\<close>.\<close>

datatype exn = Exn string

fun exn_str :: "exn \<Rightarrow> string" where
  "exn_str (Exn m) = m"

text \<open>\<open>self.config\<close>: the keys the mutation engine reads.\<close>

record config =
  file_extensions :: "string list"
  ignore_patterns :: "string list"
  modification_types :: "string list"

text \<open>The dictionary \<open>select_random_code_section\<close> returns.\<close>

record code_section =
  file_path :: path
  lines :: "(nat \<times> string) list"
  content :: string
  all_lines :: "string list"
  language :: string

text \<open>
  Calls into the outside world, in the order they are made: \<open>read_text\<close>, the chat
  completion request, \<open>write_text\<close> (with whether it returned), and \<open>subprocess.run\<close> of a
  git command in a working directory.
\<close>

datatype event =
    EvRead path
  | EvProvider string
  | EvWrite path string bool
  | EvGit path "string list"



fun is_write :: "event \<Rightarrow> bool" where
  "is_write (EvWrite p s ok) = True"
| "is_write e = False"



text \<open>What \<open>subprocess.run\<close> does: the process ran and exited with a return code, its
  standard output and standard error captured; or it could not be started.\<close>

datatype proc_result =
    Completed int string string
  | NotRun exn

text \<open>
  The state the engine works on: the file system (the paths below a root in the order
  \<open>rglob\<close> walks them, what \<open>rglob\<close> gives for a root and a pattern that is more than a
  star and a literal suffix, what \<open>stat().st_size\<close> and \<open>read_text\<close> give for a path), the
  calls made so far, and how many random numbers have been drawn.
\<close>

record world =
  listing :: "path \<Rightarrow> path list"
  glob_special :: "path \<Rightarrow> string \<Rightarrow> exn + path list"
  st_size :: "path \<Rightarrow> exn + nat"
  text_of :: "path \<Rightarrow> exn + string"
  trace :: "event list"
  draws :: nat

text \<open>
  The collaborators the engine does not control, each a function of the calls made so
  far: the random source, the chat completion service (\<open>None\<close> when the request raises
  or the message has no content), the file system's answer to a write, and git.
\<close>

record env =
  rand :: "nat \<Rightarrow> nat"
  chat_completion :: "event list \<Rightarrow> string \<Rightarrow> string option"
  write_fault :: "event list \<Rightarrow> path \<Rightarrow> exn option"
  git_proc :: "event list \<Rightarrow> path \<Rightarrow> string list \<Rightarrow> proc_result"

definition new_events :: "world \<Rightarrow> world \<Rightarrow> event list" where
  "new_events w w' = drop (length (trace w)) (trace w')"

section \<open>The operations of \<open>DynamicCodeModifier\<close>\<close>

subsection \<open>\<open>run_git_command\<close>\<close>

text \<open>
  \<open>subprocess.run\<close> with \<open>check=True\<close>: a return code other than 0 raises
  \<open>CalledProcessError\<close>, which the method turns into \<open>(False, e.stderr.strip())\<close>; any other
  exception leaves the method.
\<close>

definition run_git_command ::
  "env \<Rightarrow> path \<Rightarrow> string list \<Rightarrow> world \<Rightarrow> (exn + bool \<times> string) \<times> world" where
  "run_git_command en repo_path command w =
     (let w' = w\<lparr>trace := trace w @ [EvGit repo_path command]\<rparr>
      in case git_proc en (trace w) repo_path command of
           NotRun e \<Rightarrow> (Inl e, w')
         | Completed rc out err \<Rightarrow>
             if rc = 0 then (Inr (True, strip out), w') else (Inr (False, strip err), w'))"

subsection \<open>\<open>find_code_files\<close>\<close>

text \<open>
  \<open>repo.rglob(f"*{ext}")\<close>.  The extension comes from the configuration and goes into the
  pattern as it is.  When it holds none of the characters \<open>*\<close>, \<open>?\<close>, \<open>[\<close> and no \<open>/\<close>, the
  pattern is one component, a star and a literal suffix, and on a file system whose
  names are case-sensitive it matches the paths below the root whose final component
  ends with the extension; a name that is the extension alone is among them.  Any other
  extension makes a pattern that pathlib reads as a glob of its own (\<open>.p?\<close> matches
  \<open>app.py\<close>) or refuses (\<open>*.py\<close> gives the pattern \<open>**.py\<close>, a \<open>ValueError\<close>): what \<open>rglob\<close>
  returns or raises then is the file system's answer, \<open>glob_special\<close>.
\<close>

definition is_glob_char :: "char \<Rightarrow> bool" where
  "is_glob_char c = (c = CHR ''*'' \<or> c = CHR ''?'' \<or> c = CHR ''['' \<or> c = CHR ''/'')"

definition rglob :: "world \<Rightarrow> path \<Rightarrow> string \<Rightarrow> exn + path list" where
  "rglob w repo ext =
     (if list_ex is_glob_char ext then glob_special w repo (CHR ''*'' # ext)
      else Inr (filter (\<lambda>p. endswith (path_name p) ext) (listing w repo)))"

definition system_skips :: "string list" where
  "system_skips = [''venv'', ''site-packages'', ''.git'', ''node_modules'']"

text \<open>The inner loop, over the paths one pattern gives; \<open>stat()\<close> may raise.\<close>

fun scan_files :: "config \<Rightarrow> world \<Rightarrow> path list \<Rightarrow> exn + path list" where
  "scan_files cfg w [] = Inr []"
| "scan_files cfg w (file_str # rest) =
     (if list_ex (\<lambda>pattern. contains pattern file_str) (ignore_patterns cfg)
      then scan_files cfg w rest
      else if list_ex (\<lambda>skip. contains skip file_str) system_skips
      then scan_files cfg w rest
      else (case st_size w file_str of
              Inl e \<Rightarrow> Inl e
            | Inr file_size \<Rightarrow>
                if file_size < 50 \<or> file_size > 50000 then scan_files cfg w rest
                else (case scan_files cfg w rest of
                        Inl e \<Rightarrow> Inl e
                      | Inr code_files \<Rightarrow> Inr (file_str # code_files))))"

text \<open>The outer loop, over the extensions; an exception of \<open>rglob\<close> leaves the method
  as one of \<open>stat()\<close> does.\<close>

fun scan_extensions :: "config \<Rightarrow> world \<Rightarrow> path \<Rightarrow> string list \<Rightarrow> exn + path list" where
  "scan_extensions cfg w repo [] = Inr []"
| "scan_extensions cfg w repo (ext # exts) =
     (case rglob w repo ext of
        Inl e \<Rightarrow> Inl e
      | Inr matched \<Rightarrow>
          (case scan_files cfg w matched of
             Inl e \<Rightarrow> Inl e
           | Inr found \<Rightarrow>
               (case scan_extensions cfg w repo exts of
                  Inl e \<Rightarrow> Inl e
                | Inr others \<Rightarrow> Inr (found @ others))))"

definition find_code_files :: "config \<Rightarrow> world \<Rightarrow> path \<Rightarrow> exn + path list" where
  "find_code_files cfg w repo_path = scan_extensions cfg w repo_path (file_extensions cfg)"

subsection \<open>\<open>detect_language\<close>\<close>

definition detect_language :: "path \<Rightarrow> string" where
  "detect_language fp =
     (let ext = lower (path_suffix fp)
      in if ext = ''.ts'' then ''typescript''
         else if ext = ''.tsx'' then ''typescript''
         else if ext = ''.js'' then ''javascript''
         else if ext = ''.jsx'' then ''javascript''
         else if ext = ''.py'' then ''python''
         else if ext = ''.java'' then ''java''
         else if ext = ''.go'' then ''go''
         else if ext = ''.rs'' then ''rust''
         else ''unknown'')"

subsection \<open>\<open>select_random_code_section\<close>\<close>

text \<open>The filter of the loop over \<open>enumerate(lines)\<close>.\<close>

definition meaningful :: "string \<Rightarrow> bool" where
  "meaningful line =
     (let stripped = strip line
      in stripped \<noteq> [] \<and>
         \<not> startswith stripped ''//'' \<and>
         \<not> startswith stripped ''#'' \<and>
         \<not> startswith stripped ''/*'' \<and>
         \<not> startswith stripped ''*'' \<and>
         length stripped > 10)"

definition meaningful_lines :: "string list \<Rightarrow> (nat \<times> string) list" where
  "meaningful_lines ls = filter (\<lambda>(i, line). meaningful line) (enumerate 0 ls)"

text \<open>\<open>random.randint(a, b)\<close>: a number of \<open>[a, b]\<close>, \<open>ValueError\<close> when the range is empty.\<close>

definition randint :: "env \<Rightarrow> int \<Rightarrow> int \<Rightarrow> world \<Rightarrow> (exn + int) \<times> world" where
  "randint en a b w =
     (if b < a then (Inl (Exn ''empty range for randrange()''), w)
      else (Inr (a + int (rand en (draws w)) mod (b - a + 1)), w\<lparr>draws := Suc (draws w)\<rparr>))"

text \<open>\<open>random.choice(seq)\<close>: \<open>IndexError\<close> on an empty sequence.\<close>

definition choice :: "env \<Rightarrow> 'a list \<Rightarrow> world \<Rightarrow> (exn + 'a) \<times> world" where
  "choice en seq w =
     (if seq = [] then (Inl (Exn ''Cannot choose from an empty sequence''), w)
      else (Inr (seq ! (rand en (draws w) mod length seq)), w\<lparr>draws := Suc (draws w)\<rparr>))"

text \<open>Every exception inside the method's \<open>try\<close> gives \<open>None\<close>.\<close>

definition select_random_code_section ::
  "env \<Rightarrow> path \<Rightarrow> world \<Rightarrow> code_section option \<times> world" where
  "select_random_code_section en fp w0 =
     (let w = w0\<lparr>trace := trace w0 @ [EvRead fp]\<rparr>
      in case text_of w fp of
           Inl e \<Rightarrow> (None, w)
         | Inr text \<Rightarrow>
             let ls = split_nl text;
                 meaningful_ls = meaningful_lines ls
             in if length meaningful_ls < 3 then (None, w)
                else (case randint en 2 (min 3 (int (length meaningful_ls))) w of
                        (Inl e, w1) \<Rightarrow> (None, w1)
                      | (Inr section_size, w1) \<Rightarrow>
                          (case randint en 0 (int (length meaningful_ls) - section_size) w1 of
                             (Inl e, w2) \<Rightarrow> (None, w2)
                           | (Inr start_idx, w2) \<Rightarrow>
                               (Some \<lparr>file_path = fp,
                                      lines = take (nat section_size) (drop (nat start_idx) meaningful_ls),
                                      content = text,
                                      all_lines = ls,
                                      language = detect_language fp\<rparr>, w2))))"

subsection \<open>\<open>get_improvement_prompt\<close>\<close>

definition get_improvement_prompt :: "code_section \<Rightarrow> string \<Rightarrow> string" where
  "get_improvement_prompt sec modification_type =
     (let code_text = join_nl (map snd (lines sec));
          improve_readability =
            ''Make this '' @ language sec @
            '' code more readable and clean. Only return the improved code, no explanations:''
            @ [newline, newline] @ code_text
      in if modification_type = ''improve_performance'' then
           ''Improve the performance of this '' @ language sec @
           '' code. Only return the improved code, no explanations:''
           @ [newline, newline] @ code_text
         else if modification_type = ''add_error_handling'' then
           ''Add proper error handling to this '' @ language sec @
           '' code. Only return the improved code, no explanations:''
           @ [newline, newline] @ code_text
         else if modification_type = ''improve_readability'' then improve_readability
         else if modification_type = ''optimize_code'' then
           ''Optimize this '' @ language sec @
           '' code for better efficiency. Only return the improved code, no explanations:''
           @ [newline, newline] @ code_text
         else improve_readability)"

subsection \<open>\<open>call_openai\<close>\<close>

text \<open>\<open>\w\<close> of a Python 3 pattern on the code points below 256: alphanumerics and the
  underscore.\<close>

definition is_word :: "char \<Rightarrow> bool" where
  "is_word c =
     (let n = (of_char c :: nat)
      in (48 \<le> n \<and> n \<le> 57) \<or> (65 \<le> n \<and> n \<le> 90) \<or> n = 95 \<or> (97 \<le> n \<and> n \<le> 122) \<or>
         n = 170 \<or> n = 178 \<or> n = 179 \<or> n = 181 \<or> n = 185 \<or> n = 186 \<or>
         (188 \<le> n \<and> n \<le> 190) \<or> (192 \<le> n \<and> n \<le> 255 \<and> n \<noteq> 215 \<and> n \<noteq> 247))"

text \<open>\<open>re.sub(r'^```\w*\n?', '', s)\<close>: an opening fence, its language tag and one newline.\<close>

definition sub_fence_open :: "string \<Rightarrow> string" where
  "sub_fence_open s =
     (if startswith s ''```'' then
        (case dropWhile is_word (drop 3 s) of
           [] \<Rightarrow> []
         | c # cs \<Rightarrow> if c = newline then cs else c # cs)
      else s)"

text \<open>\<open>re.sub(r'\n?```$', '', s)\<close>: a closing fence with the newline before it; \<open>$\<close> is
  the end of the string, or the place before a newline that ends it.\<close>

definition sub_fence_close :: "string \<Rightarrow> string" where
  "sub_fence_close s =
     (let body = (if s \<noteq> [] \<and> last s = newline then butlast s else s);
          rest = (if s \<noteq> [] \<and> last s = newline then [newline] else [])
      in if endswith body (newline # ''```'') then take (length body - 4) body @ rest
         else if endswith body ''```'' then take (length body - 3) body @ rest
         else s)"

definition call_openai :: "env \<Rightarrow> string \<Rightarrow> world \<Rightarrow> string option \<times> world" where
  "call_openai en prompt w =
     (let w' = w\<lparr>trace := trace w @ [EvProvider prompt]\<rparr>
      in case chat_completion en (trace w) prompt of
           None \<Rightarrow> (None, w')
         | Some reply \<Rightarrow>
             if reply = [] then (None, w')
             else (Some (sub_fence_close (sub_fence_open (strip reply))), w'))"

subsection \<open>\<open>apply_code_modification\<close>\<close>

text \<open>\<open>file_path.write_text(s, encoding='utf-8')\<close>\<close>

definition write_text :: "env \<Rightarrow> path \<Rightarrow> string \<Rightarrow> world \<Rightarrow> (exn + unit) \<times> world" where
  "write_text en p s w =
     (case write_fault en (trace w) p of
        Some e \<Rightarrow> (Inl e, w\<lparr>trace := trace w @ [EvWrite p s False]\<rparr>)
      | None \<Rightarrow>
          (Inr (), w\<lparr>text_of := (text_of w)(p := Inr s),
                     st_size := (st_size w)(p := Inr (utf8_size s)),
                     trace := trace w @ [EvWrite p s True]\<rparr>))"

text \<open>\<open>selected_lines[0]\<close> raises on an empty selection; like a failed write, the method
  catches it and returns \<open>False\<close>.\<close>

definition apply_code_modification ::
  "env \<Rightarrow> code_section \<Rightarrow> string \<Rightarrow> world \<Rightarrow> bool \<times> world" where
  "apply_code_modification en sec improved_code w =
     (if lines sec = [] then (False, w)
      else
        let start_line = fst (hd (lines sec));
            end_line = fst (last (lines sec));
            new_lines = split_nl improved_code;
            modified_lines =
              take start_line (all_lines sec) @ new_lines @ drop (end_line + 1) (all_lines sec);
            modified_content = join_nl modified_lines
        in (case write_text en (file_path sec) modified_content w of
              (Inl e, w') \<Rightarrow> (False, w')
            | (Inr u, w') \<Rightarrow> (True, w')))"

subsection \<open>\<open>generate_commit_message\<close>\<close>

definition generate_commit_message :: "string \<Rightarrow> path \<Rightarrow> string" where
  "generate_commit_message modification_type fp =
     (if modification_type = ''improve_performance'' then ''perf: optimize code performance''
      else if modification_type = ''add_error_handling'' then ''fix: improve error handling''
      else if modification_type = ''improve_readability'' then ''refactor: improve code readability''
      else if modification_type = ''add_documentation'' then ''docs: add code comments''
      else if modification_type = ''optimize_code'' then ''perf: optimize implementation''
      else if modification_type = ''add_type_safety'' then ''feat: enhance type safety''
      else if modification_type = ''refactor_logic'' then ''refactor: simplify logic''
      else ''chore: improve code quality'')"

subsection \<open>\<open>commit_and_push\<close>\<close>

definition commit_and_push :: "env \<Rightarrow> path \<Rightarrow> string \<Rightarrow> world \<Rightarrow> (bool \<times> string) \<times> world" where
  "commit_and_push en repo_path commit_message w =
     (case run_git_command en repo_path [''add'', ''.''] w of
        (Inl e, w1) \<Rightarrow> ((False, ''Error during commit process: '' @ exn_str e), w1)
      | (Inr (success, output), w1) \<Rightarrow>
          if \<not> success then ((False, ''Failed to stage files: '' @ output), w1)
          else
            (case run_git_command en repo_path [''diff'', ''--cached'', ''--name-only''] w1 of
               (Inl e, w2) \<Rightarrow> ((False, ''Error during commit process: '' @ exn_str e), w2)
             | (Inr (success, output), w2) \<Rightarrow>
                 if \<not> success \<or> strip output = [] then ((False, ''No changes to commit''), w2)
                 else
                   (case run_git_command en repo_path [''commit'', ''-m'', commit_message] w2 of
                      (Inl e, w3) \<Rightarrow> ((False, ''Error during commit process: '' @ exn_str e), w3)
                    | (Inr (success, output), w3) \<Rightarrow>
                        if \<not> success then ((False, ''Failed to commit: '' @ output), w3)
                        else
                          (case run_git_command en repo_path [''push''] w3 of
                             (Inl e, w4) \<Rightarrow>
                               ((False, ''Error during commit process: '' @ exn_str e), w4)
                           | (Inr (success, output), w4) \<Rightarrow>
                               if \<not> success then ((False, ''Failed to push: '' @ output), w4)
                               else ((True, commit_message), w4)))))"

subsection \<open>\<open>make_dynamic_commit\<close>\<close>

definition generated_markers :: "string list" where
  "generated_markers = [''fixes'', ''features'', ''performance'', ''security'']"

text \<open>The filter to existing source files; the second \<open>stat()\<close> may raise as the first.\<close>

fun filter_existing :: "world \<Rightarrow> path list \<Rightarrow> exn + path list" where
  "filter_existing w [] = Inr []"
| "filter_existing w (fp # rest) =
     (if list_ex (\<lambda>skip. contains skip fp) generated_markers then filter_existing w rest
      else (case st_size w fp of
              Inl e \<Rightarrow> Inl e
            | Inr sz \<Rightarrow>
                (case filter_existing w rest of
                   Inl e \<Rightarrow> Inl e
                 | Inr existing_files \<Rightarrow>
                     if sz > 200 then Inr (fp # existing_files) else Inr existing_files)))"

text \<open>How one pass through the body of \<open>for attempt in range(5)\<close> ends: at a
  \<open>continue\<close> or at the end of the body, or at the \<open>return\<close>.\<close>

datatype flow = Continue | Return "bool \<times> string"

definition attempt ::
  "env \<Rightarrow> config \<Rightarrow> path \<Rightarrow> path list \<Rightarrow> world \<Rightarrow> (exn + flow) \<times> world" where
  "attempt en cfg repo_path existing_files w =
     (case choice en existing_files w of
        (Inl e, w1) \<Rightarrow> (Inl e, w1)
      | (Inr random_file, w1) \<Rightarrow>
          (case select_random_code_section en random_file w1 of
             (None, w2) \<Rightarrow> (Inr Continue, w2)
           | (Some sec, w2) \<Rightarrow>
               (case choice en (modification_types cfg) w2 of
                  (Inl e, w3) \<Rightarrow> (Inl e, w3)
                | (Inr modification_type, w3) \<Rightarrow>
                    (case call_openai en (get_improvement_prompt sec modification_type) w3 of
                       (None, w4) \<Rightarrow> (Inr Continue, w4)
                     | (Some improved_code, w4) \<Rightarrow>
                         if improved_code = [] then (Inr Continue, w4)
                         else if strip improved_code = strip (join_nl (map snd (lines sec)))
                         then (Inr Continue, w4)
                         else
                           (case apply_code_modification en sec improved_code w4 of
                              (False, w5) \<Rightarrow> (Inr Continue, w5)
                            | (True, w5) \<Rightarrow>
                                (case commit_and_push en repo_path
                                        (generate_commit_message modification_type random_file) w5 of
                                   (r, w6) \<Rightarrow> (Inr (Return r), w6)))))))"

text \<open>The loop, with the number of passes left.\<close>

fun attempts ::
  "env \<Rightarrow> config \<Rightarrow> path \<Rightarrow> path list \<Rightarrow> nat \<Rightarrow> world \<Rightarrow> (exn + bool \<times> string) \<times> world" where
  "attempts en cfg repo_path existing_files 0 w =
     (Inr (False, ''Could not generate suitable modifications after 5 attempts''), w)"
| "attempts en cfg repo_path existing_files (Suc n) w =
     (case attempt en cfg repo_path existing_files w of
        (Inl e, w') \<Rightarrow> (Inl e, w')
      | (Inr Continue, w') \<Rightarrow> attempts en cfg repo_path existing_files n w'
      | (Inr (Return r), w') \<Rightarrow> (Inr r, w'))"


definition make_dynamic_commit ::
  "env \<Rightarrow> config \<Rightarrow> path \<Rightarrow> world \<Rightarrow> (bool \<times> string) \<times> world" where
  "make_dynamic_commit en cfg repo_path w =
     (case find_code_files cfg w repo_path of
        Inl e \<Rightarrow> ((False, ''Error in dynamic commit: '' @ exn_str e), w)
      | Inr code_files \<Rightarrow>
          if code_files = [] then ((False, ''No suitable code files found''), w)
          else
            (case filter_existing w code_files of
               Inl e \<Rightarrow> ((False, ''Error in dynamic commit: '' @ exn_str e), w)
             | Inr existing_files \<Rightarrow>
                 if existing_files = []
                 then ((False, ''No existing source files found to modify''), w)
                 else
                   (case attempts en cfg repo_path existing_files 5 w of
                      (Inl e, w') \<Rightarrow> ((False, ''Error in dynamic commit: '' @ exn_str e), w')
                    | (Inr r, w') \<Rightarrow> (r, w'))))"

section \<open>A small repository to run the engine on\<close>

text \<open>
  Four roots.  \<open>/repo\<close> holds a source file of 300 bytes with 10 meaningful lines, one of
  exactly 50 bytes, a dependency and a text file; \<open>/small\<close> holds one source file of 67
  bytes; \<open>/hidden\<close> holds a file whose whole name is \<open>.py\<close>; \<open>/empty\<close> holds nothing.
  Every size is the size of the file's text.
\<close>

definition demo_config :: config where
  "demo_config =
     \<lparr>file_extensions = [''.py'', ''.js''],
      ignore_patterns = [''node_modules'', ''.git'', ''dist'', ''build'', ''__pycache__''],
      modification_types = [''add_documentation'', ''improve_performance'']\<rparr>"

definition demo_text :: string where
  "demo_text =
     join_nl [''import os, sys'', ''# helper functions'', ''def alpha(x, y):'',
              ''    return x + y'', [], ''print(alpha(1, 2))'',
              ''def beta(items, scale):'', ''    total = sum(items) * scale'',
              ''    return total / len(items)'', ''value = alpha(10, 20) + beta([1, 2], 3)'',
              ''print(beta([1, 2, 3], 2), value)'',
              ''result = [alpha(n, n) + alpha(1,n) for n in range(10)]'']"

definition edge_text :: string where
  "edge_text = join_nl [''# edge case module'', ''EDGES = [1, 2, 3]; print(EDGES)'']"

definition tiny_text :: string where
  "tiny_text =
     join_nl [''# tiny helper script: prints one number and exits'', ''print(1234567890)'']"

definition hidden_text :: string where
  "hidden_text =
     join_nl [''# a file whose whole name is the extension'', ''print(sorted([3, 1, 2]))'']"

definition demo_files :: "(path \<times> string) list" where
  "demo_files =
     [(''/repo/app.py'', demo_text),
      (''/repo/edge.py'', edge_text),
      (''/repo/node_modules/lib.js'', ''module.exports = function lib() { return 42; };''),
      (''/repo/notes.txt'', ''Notes: the scripts in this directory are examples.''),
      (''/small/tiny.py'', tiny_text),
      (''/hidden/.py'', hidden_text)]"

text \<open>No extension of \<open>demo_config\<close> has a glob character, so \<open>glob_special\<close> is not asked.\<close>

definition demo_world :: world where
  "demo_world =
     \<lparr>listing = (\<lambda>root. filter (\<lambda>p. startswith p (root @ ''/'')) (map fst demo_files)),
      glob_special = (\<lambda>root pattern. Inr []),
      st_size = (\<lambda>p.
        case map_of demo_files p of
          None \<Rightarrow> Inl (Exn ''No such file or directory'')
        | Some t \<Rightarrow> Inr (utf8_size t)),
      text_of = (\<lambda>p.
        case map_of demo_files p of
          None \<Rightarrow> Inl (Exn ''No such file or directory'')
        | Some t \<Rightarrow> Inr t),
      trace = [],
      draws = 0\<rparr>"

definition demo_section :: code_section where
  "demo_section =
     \<lparr>file_path = ''/repo/app.py'',
      lines = [(2, ''def alpha(x, y):''), (3, ''    return x + y'')],
      content = demo_text,
      all_lines = split_nl demo_text,
      language = ''python''\<rparr>"

text \<open>A provider that answers every prompt with a new line of code, and one that sends
  the first selection of \<open>/repo/app.py\<close> back with other spacing; git succeeds.\<close>

definition demo_env :: env where
  "demo_env =
     \<lparr>rand = (\<lambda>n. 0),
      chat_completion = (\<lambda>h prompt. Some ''import os''),
      write_fault = (\<lambda>h p. None),
      git_proc = (\<lambda>h d c. Completed 0 ''app.py'' [])\<rparr>"

definition echo_env :: env where
  "echo_env =
     \<lparr>rand = (\<lambda>n. 0),
      chat_completion =
        (\<lambda>h prompt. Some (join_nl [''  import os, sys'', ''def alpha(x, y):  ''])),
      write_fault = (\<lambda>h p. None),
      git_proc = (\<lambda>h d c. Completed 0 ''app.py'' [])\<rparr>"


text \<open>Git that reports nothing staged, git whose staged-name query fails, and git that
  cannot stage.\<close>

definition blank_env :: env where
  "blank_env =
     \<lparr>rand = (\<lambda>n. 0),
      chat_completion = (\<lambda>h prompt. Some ''import os''),
      write_fault = (\<lambda>h p. None),
      git_proc = (\<lambda>h d c.
        if c = [''diff'', ''--cached'', ''--name-only''] then Completed 0 [CHR '' '', newline] []
        else Completed 0 [] [])\<rparr>"

definition broken_env :: env where
  "broken_env =
     \<lparr>rand = (\<lambda>n. 0),
      chat_completion = (\<lambda>h prompt. Some ''import os''),
      write_fault = (\<lambda>h p. None),
      git_proc = (\<lambda>h d c.
        if c = [''diff'', ''--cached'', ''--name-only'']
        then Completed 128 [] ''fatal: index file corrupt''
        else Completed 0 [] [])\<rparr>"

definition nostage_env :: env where
  "nostage_env =
     \<lparr>rand = (\<lambda>n. 0),
      chat_completion = (\<lambda>h prompt. Some ''import os''),
      write_fault = (\<lambda>h p. None),
      git_proc = (\<lambda>h d c. Completed 128 [] (''fatal: not a git repository'' @ [newline]))\<rparr>"

text \<open>The section the selector picks in \<open>/repo/app.py\<close> when every random draw is 0.\<close>

definition first_section :: code_section where
  "first_section =
     \<lparr>file_path = ''/repo/app.py'',
      lines = [(0, ''import os, sys''), (2, ''def alpha(x, y):'')],
      content = demo_text,
      all_lines = split_nl demo_text,
      language = ''python''\<rparr>"

section \<open>Facts about the string functions\<close>

lemma split_nl_nonempty: "split_nl s \<noteq> []"
  by (induction s) (auto split: list.splits)

lemma split_nl_no_newline: "l \<in> set (split_nl s) \<Longrightarrow> newline \<notin> set l"
  by (induction s arbitrary: l) (auto split: list.splits if_splits)

lemma split_nl_line: "newline \<notin> set l \<Longrightarrow> split_nl l = [l]"
  by (induction l) auto

lemma split_nl_append:
  "newline \<notin> set l \<Longrightarrow> split_nl (l @ newline # s) = l # split_nl s"
  by (induction l) (auto split: list.splits)

lemma split_join_nl:
  "xs \<noteq> [] \<Longrightarrow> \<forall>l\<in>set xs. newline \<notin> set l \<Longrightarrow> split_nl (join_nl xs) = xs"
proof (induction xs rule: join_nl.induct)
  case 1
  then show ?case by simp
next
  case (2 l)
  then show ?case by (simp add: split_nl_line)
next
  case (3 l m ms)
  then show ?case by (simp add: split_nl_append)
qed

section \<open>Facts about the small repository\<close>

lemma demo_listing_repo:
  "listing demo_world ''/repo'' =
     [''/repo/app.py'', ''/repo/edge.py'', ''/repo/node_modules/lib.js'', ''/repo/notes.txt'']"
  by (simp add: demo_world_def demo_files_def)

lemma demo_listing_small: "listing demo_world ''/small'' = [''/small/tiny.py'']"
  by (simp add: demo_world_def demo_files_def)

lemma demo_listing_hidden: "listing demo_world ''/hidden'' = [''/hidden/.py'']"
  by (simp add: demo_world_def demo_files_def)

lemma demo_listing_empty: "listing demo_world ''/empty'' = []"
  by (simp add: demo_world_def demo_files_def)

lemma demo_trace: "trace demo_world = []"
  by (simp add: demo_world_def)

lemma demo_draws: "draws demo_world = 0"
  by (simp add: demo_world_def)

lemma demo_text_app: "text_of demo_world ''/repo/app.py'' = Inr demo_text"
  by (simp add: demo_world_def demo_files_def)

lemma demo_text_tiny: "text_of demo_world ''/small/tiny.py'' = Inr tiny_text"
  by (simp add: demo_world_def demo_files_def)

lemma demo_text_size: "utf8_size demo_text = 300"
  by (simp add: demo_text_def utf8_size_def newline_def)

lemma edge_text_size: "utf8_size edge_text = 50"
  by (simp add: edge_text_def utf8_size_def newline_def)

lemma tiny_text_size: "utf8_size tiny_text = 67"
  by (simp add: tiny_text_def utf8_size_def newline_def)

lemma hidden_text_size: "utf8_size hidden_text = 67"
  by (simp add: hidden_text_def utf8_size_def newline_def)

lemma demo_size_app: "st_size demo_world ''/repo/app.py'' = Inr 300"
  by (simp add: demo_world_def demo_files_def demo_text_size)

lemma demo_size_edge: "st_size demo_world ''/repo/edge.py'' = Inr 50"
  by (simp add: demo_world_def demo_files_def edge_text_size)

lemma demo_size_tiny: "st_size demo_world ''/small/tiny.py'' = Inr 67"
  by (simp add: demo_world_def demo_files_def tiny_text_size)

lemma demo_size_hidden: "st_size demo_world ''/hidden/.py'' = Inr 67"
  by (simp add: demo_world_def demo_files_def hidden_text_size)

section \<open>The prompt builder\<close>

text \<open>
  Claim C9.  \<open>get_improvement_prompt\<close> is a function of the section and the modification
  type alone.  Whatever the type, the prompt ends with two newlines and the texts of the
  selected lines, in their order, joined by newlines, and it names the section's
  language.  For every type other than the four that have a template of their own
  (\<open>add_documentation\<close>, \<open>add_type_safety\<close> and \<open>refactor_logic\<close> among them) the prompt
  is the \<open>improve_readability\<close> template, rendered with the same language and code.
\<close>

theorem get_improvement_prompt_fallback:
  "(\<exists>pre post. get_improvement_prompt sec mt =
       pre @ language sec @ post @ [newline, newline] @ join_nl (map snd (lines sec))) \<and>
   (mt \<notin> {''improve_performance'', ''add_error_handling'', ''improve_readability'',
           ''optimize_code''} \<longrightarrow>
      get_improvement_prompt sec mt = get_improvement_prompt sec ''improve_readability'' \<and>
      get_improvement_prompt sec mt =
        ''Make this '' @ language sec @
        '' code more readable and clean. Only return the improved code, no explanations:''
        @ [newline, newline] @ join_nl (map snd (lines sec)))"
proof -
  let ?code = "join_nl (map snd (lines sec))"
  have "\<exists>pre post. get_improvement_prompt sec mt =
          pre @ language sec @ post @ [newline, newline] @ ?code"
    unfolding get_improvement_prompt_def Let_def
    by (metis append.assoc)
  moreover have
    "mt \<notin> {''improve_performance'', ''add_error_handling'', ''improve_readability'',
            ''optimize_code''} \<longrightarrow>
      get_improvement_prompt sec mt = get_improvement_prompt sec ''improve_readability'' \<and>
      get_improvement_prompt sec mt =
        ''Make this '' @ language sec @
        '' code more readable and clean. Only return the improved code, no explanations:''
        @ [newline, newline] @ ?code"
    by (simp add: get_improvement_prompt_def Let_def)
  ultimately show ?thesis by blast
qed

theorem get_improvement_prompt_fallback_witness:
  "''add_documentation'' \<notin> {''improve_performance'', ''add_error_handling'',
      ''improve_readability'', ''optimize_code''} \<and>
   get_improvement_prompt demo_section ''add_documentation'' =
     get_improvement_prompt demo_section ''improve_readability'' \<and>
   get_improvement_prompt demo_section ''add_documentation'' =
     ''Make this '' @ ''python'' @
     '' code more readable and clean. Only return the improved code, no explanations:''
     @ [newline, newline] @ join_nl [''def alpha(x, y):'', ''    return x + y'']"
proof -
  have h: "''add_documentation'' \<notin> {''improve_performance'', ''add_error_handling'',
      ''improve_readability'', ''optimize_code''}"
    by simp
  have l: "language demo_section = ''python''"
    "map snd (lines demo_section) = [''def alpha(x, y):'', ''    return x + y'']"
    by (simp_all add: demo_section_def)
  from get_improvement_prompt_fallback [of demo_section "''add_documentation''"] h
  have c: "get_improvement_prompt demo_section ''add_documentation'' =
      get_improvement_prompt demo_section ''improve_readability'' \<and>
    get_improvement_prompt demo_section ''add_documentation'' =
      ''Make this '' @ language demo_section @
      '' code more readable and clean. Only return the improved code, no explanations:''
      @ [newline, newline] @ join_nl (map snd (lines demo_section))"
    by blast
  show ?thesis
    by (rule conjI [OF h c [unfolded l]])
qed

section \<open>The commit workflow\<close>

lemma strip_Nil [simp]: "strip [] = []"
  by (simp add: strip_def)

lemma dropWhile_rev_keeps_head:
  assumes "\<not> P y"
  shows "\<exists>zs. dropWhile P (rev (y # ys)) = zs @ [y]"
  using assms by (simp add: dropWhile_append)

lemma dropWhile_strip_fixed:
  "dropWhile P (rev (dropWhile P (rev (dropWhile P xs)))) =
   rev (dropWhile P (rev (dropWhile P xs)))"
proof (cases "dropWhile P xs")
  case Nil
  show ?thesis unfolding Nil by simp
next
  case (Cons y ys)
  then have ny: "\<not> P y" by (metis dropWhile_eq_Cons_conv)
  from dropWhile_rev_keeps_head [of P y ys] ny
  obtain zs where "dropWhile P (rev (y # ys)) = zs @ [y]"
    by blast
  then show ?thesis unfolding Cons using ny by simp
qed

lemma strip_strip: "strip (strip s) = strip s"
  unfolding strip_def
  by (simp add: dropWhile_strip_fixed)

text \<open>One lemma for each way through \<open>commit_and_push\<close>.\<close>

lemma cap_stage_failed:
  assumes "git_proc en (trace w) repo [''add'', ''.''] = Completed rc out1 err1"
      and "rc \<noteq> 0"
  shows "commit_and_push en repo msg w =
       ((False, ''Failed to stage files: '' @ strip err1),
        w\<lparr>trace := trace w @
          [EvGit repo [''add'', ''.'']]\<rparr>)"
  using assms
  by (simp add: commit_and_push_def run_git_command_def Let_def strip_strip)

lemma cap_nothing_staged:
  assumes "git_proc en (trace w) repo [''add'', ''.''] = Completed 0 out1 err1"
      and "git_proc en (trace w @ [EvGit repo [''add'', ''.'']]) repo [''diff'', ''--cached'', ''--name-only''] = Completed rc out2 err2"
      and "rc \<noteq> 0 \<or> strip out2 = []"
  shows "commit_and_push en repo msg w =
       ((False, ''No changes to commit''),
        w\<lparr>trace := trace w @
          [EvGit repo [''add'', ''.''], EvGit repo [''diff'', ''--cached'', ''--name-only'']]\<rparr>)"
  using assms
  by (cases "rc = 0") (simp_all add: commit_and_push_def run_git_command_def Let_def strip_strip)

lemma cap_commit_failed:
  assumes "git_proc en (trace w) repo [''add'', ''.''] = Completed 0 out1 err1"
      and "git_proc en (trace w @ [EvGit repo [''add'', ''.'']]) repo [''diff'', ''--cached'', ''--name-only''] = Completed 0 out2 err2"
      and "strip out2 \<noteq> []"
      and "git_proc en (trace w @ [EvGit repo [''add'', ''.''], EvGit repo [''diff'', ''--cached'', ''--name-only'']]) repo [''commit'', ''-m'', msg] = Completed rc out3 err3"
      and "rc \<noteq> 0"
  shows "commit_and_push en repo msg w =
       ((False, ''Failed to commit: '' @ strip err3),
        w\<lparr>trace := trace w @
          [EvGit repo [''add'', ''.''], EvGit repo [''diff'', ''--cached'', ''--name-only''], EvGit repo [''commit'', ''-m'', msg]]\<rparr>)"
  using assms
  by (simp add: commit_and_push_def run_git_command_def Let_def strip_strip)

lemma cap_push_failed:
  assumes "git_proc en (trace w) repo [''add'', ''.''] = Completed 0 out1 err1"
      and "git_proc en (trace w @ [EvGit repo [''add'', ''.'']]) repo [''diff'', ''--cached'', ''--name-only''] = Completed 0 out2 err2"
      and "strip out2 \<noteq> []"
      and "git_proc en (trace w @ [EvGit repo [''add'', ''.''], EvGit repo [''diff'', ''--cached'', ''--name-only'']]) repo [''commit'', ''-m'', msg] = Completed 0 out3 err3"
      and "git_proc en (trace w @ [EvGit repo [''add'', ''.''], EvGit repo [''diff'', ''--cached'', ''--name-only''], EvGit repo [''commit'', ''-m'', msg]]) repo [''push''] = Completed rc out4 err4"
      and "rc \<noteq> 0"
  shows "commit_and_push en repo msg w =
       ((False, ''Failed to push: '' @ strip err4),
        w\<lparr>trace := trace w @
          [EvGit repo [''add'', ''.''], EvGit repo [''diff'', ''--cached'', ''--name-only''], EvGit repo [''commit'', ''-m'', msg], EvGit repo [''push'']]\<rparr>)"
  using assms
  by (simp add: commit_and_push_def run_git_command_def Let_def strip_strip)

lemma cap_all_succeed:
  assumes "git_proc en (trace w) repo [''add'', ''.''] = Completed 0 out1 err1"
      and "git_proc en (trace w @ [EvGit repo [''add'', ''.'']]) repo [''diff'', ''--cached'', ''--name-only''] = Completed 0 out2 err2"
      and "strip out2 \<noteq> []"
      and "git_proc en (trace w @ [EvGit repo [''add'', ''.''], EvGit repo [''diff'', ''--cached'', ''--name-only'']]) repo [''commit'', ''-m'', msg] = Completed 0 out3 err3"
      and "git_proc en (trace w @ [EvGit repo [''add'', ''.''], EvGit repo [''diff'', ''--cached'', ''--name-only''], EvGit repo [''commit'', ''-m'', msg]]) repo [''push''] = Completed 0 out4 err4"
  shows "commit_and_push en repo msg w =
       ((True, msg),
        w\<lparr>trace := trace w @
          [EvGit repo [''add'', ''.''], EvGit repo [''diff'', ''--cached'', ''--name-only''], EvGit repo [''commit'', ''-m'', msg], EvGit repo [''push'']]\<rparr>)"
  using assms
  by (simp add: commit_and_push_def run_git_command_def Let_def strip_strip)

lemma cap_not_run_1:
  assumes "git_proc en (trace w) repo [''add'', ''.''] = NotRun e"
  shows "commit_and_push en repo msg w =
       ((False, ''Error during commit process: '' @ exn_str e),
        w\<lparr>trace := trace w @
          [EvGit repo [''add'', ''.'']]\<rparr>)"
  using assms
  by (simp add: commit_and_push_def run_git_command_def Let_def strip_strip)

lemma cap_not_run_2:
  assumes "git_proc en (trace w) repo [''add'', ''.''] = Completed 0 out1 err1"
      and "git_proc en (trace w @ [EvGit repo [''add'', ''.'']]) repo [''diff'', ''--cached'', ''--name-only''] = NotRun e"
  shows "commit_and_push en repo msg w =
       ((False, ''Error during commit process: '' @ exn_str e),
        w\<lparr>trace := trace w @
          [EvGit repo [''add'', ''.''], EvGit repo [''diff'', ''--cached'', ''--name-only'']]\<rparr>)"
  using assms
  by (simp add: commit_and_push_def run_git_command_def Let_def strip_strip)

lemma cap_not_run_3:
  assumes "git_proc en (trace w) repo [''add'', ''.''] = Completed 0 out1 err1"
      and "git_proc en (trace w @ [EvGit repo [''add'', ''.'']]) repo [''diff'', ''--cached'', ''--name-only''] = Completed 0 out2 err2"
      and "strip out2 \<noteq> []"
      and "git_proc en (trace w @ [EvGit repo [''add'', ''.''], EvGit repo [''diff'', ''--cached'', ''--name-only'']]) repo [''commit'', ''-m'', msg] = NotRun e"
  shows "commit_and_push en repo msg w =
       ((False, ''Error during commit process: '' @ exn_str e),
        w\<lparr>trace := trace w @
          [EvGit repo [''add'', ''.''], EvGit repo [''diff'', ''--cached'', ''--name-only''], EvGit repo [''commit'', ''-m'', msg]]\<rparr>)"
  using assms
  by (simp add: commit_and_push_def run_git_command_def Let_def strip_strip)

lemma cap_not_run_4:
  assumes "git_proc en (trace w) repo [''add'', ''.''] = Completed 0 out1 err1"
      and "git_proc en (trace w @ [EvGit repo [''add'', ''.'']]) repo [''diff'', ''--cached'', ''--name-only''] = Completed 0 out2 err2"
      and "strip out2 \<noteq> []"
      and "git_proc en (trace w @ [EvGit repo [''add'', ''.''], EvGit repo [''diff'', ''--cached'', ''--name-only'']]) repo [''commit'', ''-m'', msg] = Completed 0 out3 err3"
      and "git_proc en (trace w @ [EvGit repo [''add'', ''.''], EvGit repo [''diff'', ''--cached'', ''--name-only''], EvGit repo [''commit'', ''-m'', msg]]) repo [''push''] = NotRun e"
  shows "commit_and_push en repo msg w =
       ((False, ''Error during commit process: '' @ exn_str e),
        w\<lparr>trace := trace w @
          [EvGit repo [''add'', ''.''], EvGit repo [''diff'', ''--cached'', ''--name-only''], EvGit repo [''commit'', ''-m'', msg], EvGit repo [''push'']]\<rparr>)"
  using assms
  by (simp add: commit_and_push_def run_git_command_def Let_def strip_strip)

text \<open>
  Claim C7.  When staging succeeds and the staged-name query succeeds with an output that
  is blank, \<open>commit_and_push\<close> returns \<open>(False, "No changes to commit")\<close>, and the only git
  commands it has run are the staging and the query: no commit, no push.
\<close>

theorem commit_and_push_nothing_staged:
  assumes "git_proc en (trace w) repo [''add'', ''.''] = Completed 0 out1 err1"
      and "git_proc en (trace w @ [EvGit repo [''add'', ''.'']]) repo
             [''diff'', ''--cached'', ''--name-only''] = Completed 0 out2 err2"
      and "strip out2 = []"
  shows "commit_and_push en repo msg w =
           ((False, ''No changes to commit''),
            w\<lparr>trace := trace w @
              [EvGit repo [''add'', ''.''],
               EvGit repo [''diff'', ''--cached'', ''--name-only'']]\<rparr>)"
  using assms by (intro cap_nothing_staged) auto

theorem commit_and_push_nothing_staged_witness:
  "git_proc blank_env (trace demo_world) ''/repo'' [''add'', ''.''] = Completed 0 [] [] \<and>
   git_proc blank_env (trace demo_world @ [EvGit ''/repo'' [''add'', ''.'']]) ''/repo''
     [''diff'', ''--cached'', ''--name-only''] = Completed 0 [CHR '' '', newline] [] \<and>
   strip [CHR '' '', newline] = [] \<and>
   commit_and_push blank_env ''/repo'' ''docs: add code comments'' demo_world =
     ((False, ''No changes to commit''),
      demo_world\<lparr>trace := trace demo_world @
        [EvGit ''/repo'' [''add'', ''.''],
         EvGit ''/repo'' [''diff'', ''--cached'', ''--name-only'']]\<rparr>)"
proof -
  have h1: "git_proc blank_env (trace demo_world) ''/repo'' [''add'', ''.''] = Completed 0 [] []"
    by (simp add: blank_env_def)
  have h2: "git_proc blank_env (trace demo_world @ [EvGit ''/repo'' [''add'', ''.'']]) ''/repo''
     [''diff'', ''--cached'', ''--name-only''] = Completed 0 [CHR '' '', newline] []"
    by (simp add: blank_env_def)
  have h3: "strip [CHR '' '', newline] = []"
    by (simp add: strip_def is_space_def newline_def)
  from commit_and_push_nothing_staged [OF h1 h2 h3] h1 h2 h3
  show ?thesis by blast
qed

text \<open>
  Claim C10.  \<open>commit_and_push\<close> also returns \<open>(False, "No changes to commit")\<close> when the
  staged-name query itself fails: whatever the query wrote to its standard error, the
  result is that fixed text, and neither commit nor push runs.  The three other steps
  put their own diagnostic in the result.
\<close>

theorem commit_and_push_query_failure_hidden:
  "(git_proc en (trace w) repo [''add'', ''.''] = Completed 0 out1 err1 \<and>
    git_proc en (trace w @ [EvGit repo [''add'', ''.'']]) repo
      [''diff'', ''--cached'', ''--name-only''] = Completed rc out2 err2 \<and>
    rc \<noteq> 0 \<longrightarrow>
      commit_and_push en repo msg w =
        ((False, ''No changes to commit''),
         w\<lparr>trace := trace w @
           [EvGit repo [''add'', ''.''],
            EvGit repo [''diff'', ''--cached'', ''--name-only'']]\<rparr>)) \<and>
   (git_proc en (trace w) repo [''add'', ''.''] = Completed rc out1 err1 \<and> rc \<noteq> 0 \<longrightarrow>
      fst (commit_and_push en repo msg w) = (False, ''Failed to stage files: '' @ strip err1)) \<and>
   (git_proc en (trace w) repo [''add'', ''.''] = Completed 0 out1 err1 \<and>
    git_proc en (trace w @ [EvGit repo [''add'', ''.'']]) repo
      [''diff'', ''--cached'', ''--name-only''] = Completed 0 out2 err2 \<and>
    strip out2 \<noteq> [] \<and>
    git_proc en (trace w @ [EvGit repo [''add'', ''.''],
        EvGit repo [''diff'', ''--cached'', ''--name-only'']]) repo
      [''commit'', ''-m'', msg] = Completed rc out3 err3 \<and>
    rc \<noteq> 0 \<longrightarrow>
      fst (commit_and_push en repo msg w) = (False, ''Failed to commit: '' @ strip err3)) \<and>
   (git_proc en (trace w) repo [''add'', ''.''] = Completed 0 out1 err1 \<and>
    git_proc en (trace w @ [EvGit repo [''add'', ''.'']]) repo
      [''diff'', ''--cached'', ''--name-only''] = Completed 0 out2 err2 \<and>
    strip out2 \<noteq> [] \<and>
    git_proc en (trace w @ [EvGit repo [''add'', ''.''],
        EvGit repo [''diff'', ''--cached'', ''--name-only'']]) repo
      [''commit'', ''-m'', msg] = Completed 0 out3 err3 \<and>
    git_proc en (trace w @ [EvGit repo [''add'', ''.''],
        EvGit repo [''diff'', ''--cached'', ''--name-only''],
        EvGit repo [''commit'', ''-m'', msg]]) repo [''push''] = Completed rc out4 err4 \<and>
    rc \<noteq> 0 \<longrightarrow>
      fst (commit_and_push en repo msg w) = (False, ''Failed to push: '' @ strip err4))"
proof (intro conjI impI; elim conjE)
  assume "git_proc en (trace w) repo [''add'', ''.''] = Completed 0 out1 err1"
    "git_proc en (trace w @ [EvGit repo [''add'', ''.'']]) repo
      [''diff'', ''--cached'', ''--name-only''] = Completed rc out2 err2"
    "rc \<noteq> 0"
  then show "commit_and_push en repo msg w =
        ((False, ''No changes to commit''),
         w\<lparr>trace := trace w @
           [EvGit repo [''add'', ''.''],
            EvGit repo [''diff'', ''--cached'', ''--name-only'']]\<rparr>)"
    by (intro cap_nothing_staged) auto
next
  assume "git_proc en (trace w) repo [''add'', ''.''] = Completed rc out1 err1" "rc \<noteq> 0"
  then show "fst (commit_and_push en repo msg w) = (False, ''Failed to stage files: '' @ strip err1)"
    by (simp add: cap_stage_failed)
next
  assume "git_proc en (trace w) repo [''add'', ''.''] = Completed 0 out1 err1"
    "git_proc en (trace w @ [EvGit repo [''add'', ''.'']]) repo
      [''diff'', ''--cached'', ''--name-only''] = Completed 0 out2 err2"
    "strip out2 \<noteq> []"
    "git_proc en (trace w @ [EvGit repo [''add'', ''.''],
        EvGit repo [''diff'', ''--cached'', ''--name-only'']]) repo
      [''commit'', ''-m'', msg] = Completed rc out3 err3"
    "rc \<noteq> 0"
  then show "fst (commit_and_push en repo msg w) = (False, ''Failed to commit: '' @ strip err3)"
    by (simp add: cap_commit_failed)
next
  assume "git_proc en (trace w) repo [''add'', ''.''] = Completed 0 out1 err1"
    "git_proc en (trace w @ [EvGit repo [''add'', ''.'']]) repo
      [''diff'', ''--cached'', ''--name-only''] = Completed 0 out2 err2"
    "strip out2 \<noteq> []"
    "git_proc en (trace w @ [EvGit repo [''add'', ''.''],
        EvGit repo [''diff'', ''--cached'', ''--name-only'']]) repo
      [''commit'', ''-m'', msg] = Completed 0 out3 err3"
    "git_proc en (trace w @ [EvGit repo [''add'', ''.''],
        EvGit repo [''diff'', ''--cached'', ''--name-only''],
        EvGit repo [''commit'', ''-m'', msg]]) repo [''push''] = Completed rc out4 err4"
    "rc \<noteq> 0"
  then show "fst (commit_and_push en repo msg w) = (False, ''Failed to push: '' @ strip err4)"
    by (simp add: cap_push_failed)
qed

theorem commit_and_push_query_failure_hidden_witness:
  "git_proc broken_env (trace demo_world) ''/repo'' [''add'', ''.''] = Completed 0 [] [] \<and>
   git_proc broken_env (trace demo_world @ [EvGit ''/repo'' [''add'', ''.'']]) ''/repo''
     [''diff'', ''--cached'', ''--name-only''] = Completed 128 [] ''fatal: index file corrupt'' \<and>
   (128::int) \<noteq> 0 \<and>
   commit_and_push broken_env ''/repo'' ''docs: add code comments'' demo_world =
     ((False, ''No changes to commit''),
      demo_world\<lparr>trace := trace demo_world @
        [EvGit ''/repo'' [''add'', ''.''],
         EvGit ''/repo'' [''diff'', ''--cached'', ''--name-only'']]\<rparr>)"
proof -
  have h1: "git_proc broken_env (trace demo_world) ''/repo'' [''add'', ''.''] = Completed 0 [] []"
    by (simp add: broken_env_def)
  have h2: "git_proc broken_env (trace demo_world @ [EvGit ''/repo'' [''add'', ''.'']]) ''/repo''
     [''diff'', ''--cached'', ''--name-only''] = Completed 128 [] ''fatal: index file corrupt''"
    by (simp add: broken_env_def)
  have h3: "(128::int) \<noteq> 0"
    by simp
  from commit_and_push_query_failure_hidden
    [of broken_env demo_world "''/repo''" "[]" "[]" 128 "[]" "''fatal: index file corrupt''"
        "''docs: add code comments''"]
    h1 h2 h3
  show ?thesis by blast
qed

text \<open>
  Claim C8.  \<open>commit_and_push\<close> runs stage-all, the staged-name query, commit and push in
  this order, each on the history the earlier ones left, and stops at the first that
  fails: the git commands it has run are then the steps up to that one, and the result
  is \<open>False\<close> with that step's diagnostic (a step that could not be started counts as
  failed).  When all four succeed, the query naming at least one file, the result is
  \<open>(True, m)\<close> for the commit message \<open>m\<close> given.
\<close>

theorem commit_and_push_steps:
  "(git_proc en (trace w) repo [''add'', ''.''] = Completed rc out1 err1 \<and>
    rc \<noteq> 0 \<longrightarrow>
      commit_and_push en repo msg w =
        ((False, ''Failed to stage files: '' @ strip err1),
         w\<lparr>trace := trace w @
           [EvGit repo [''add'', ''.'']]\<rparr>)) \<and>
   (git_proc en (trace w) repo [''add'', ''.''] = Completed 0 out1 err1 \<and>
    git_proc en (trace w @ [EvGit repo [''add'', ''.'']]) repo [''diff'', ''--cached'', ''--name-only''] = Completed rc out2 err2 \<and>
    (rc \<noteq> 0 \<or> strip out2 = []) \<longrightarrow>
      commit_and_push en repo msg w =
        ((False, ''No changes to commit''),
         w\<lparr>trace := trace w @
           [EvGit repo [''add'', ''.''], EvGit repo [''diff'', ''--cached'', ''--name-only'']]\<rparr>)) \<and>
   (git_proc en (trace w) repo [''add'', ''.''] = Completed 0 out1 err1 \<and>
    git_proc en (trace w @ [EvGit repo [''add'', ''.'']]) repo [''diff'', ''--cached'', ''--name-only''] = Completed 0 out2 err2 \<and>
    strip out2 \<noteq> [] \<and>
    git_proc en (trace w @ [EvGit repo [''add'', ''.''], EvGit repo [''diff'', ''--cached'', ''--name-only'']]) repo [''commit'', ''-m'', msg] = Completed rc out3 err3 \<and>
    rc \<noteq> 0 \<longrightarrow>
      commit_and_push en repo msg w =
        ((False, ''Failed to commit: '' @ strip err3),
         w\<lparr>trace := trace w @
           [EvGit repo [''add'', ''.''], EvGit repo [''diff'', ''--cached'', ''--name-only''], EvGit repo [''commit'', ''-m'', msg]]\<rparr>)) \<and>
   (git_proc en (trace w) repo [''add'', ''.''] = Completed 0 out1 err1 \<and>
    git_proc en (trace w @ [EvGit repo [''add'', ''.'']]) repo [''diff'', ''--cached'', ''--name-only''] = Completed 0 out2 err2 \<and>
    strip out2 \<noteq> [] \<and>
    git_proc en (trace w @ [EvGit repo [''add'', ''.''], EvGit repo [''diff'', ''--cached'', ''--name-only'']]) repo [''commit'', ''-m'', msg] = Completed 0 out3 err3 \<and>
    git_proc en (trace w @ [EvGit repo [''add'', ''.''], EvGit repo [''diff'', ''--cached'', ''--name-only''], EvGit repo [''commit'', ''-m'', msg]]) repo [''push''] = Completed rc out4 err4 \<and>
    rc \<noteq> 0 \<longrightarrow>
      commit_and_push en repo msg w =
        ((False, ''Failed to push: '' @ strip err4),
         w\<lparr>trace := trace w @
           [EvGit repo [''add'', ''.''], EvGit repo [''diff'', ''--cached'', ''--name-only''], EvGit repo [''commit'', ''-m'', msg], EvGit repo [''push'']]\<rparr>)) \<and>
   (git_proc en (trace w) repo [''add'', ''.''] = Completed 0 out1 err1 \<and>
    git_proc en (trace w @ [EvGit repo [''add'', ''.'']]) repo [''diff'', ''--cached'', ''--name-only''] = Completed 0 out2 err2 \<and>
    strip out2 \<noteq> [] \<and>
    git_proc en (trace w @ [EvGit repo [''add'', ''.''], EvGit repo [''diff'', ''--cached'', ''--name-only'']]) repo [''commit'', ''-m'', msg] = Completed 0 out3 err3 \<and>
    git_proc en (trace w @ [EvGit repo [''add'', ''.''], EvGit repo [''diff'', ''--cached'', ''--name-only''], EvGit repo [''commit'', ''-m'', msg]]) repo [''push''] = Completed 0 out4 err4 \<longrightarrow>
      commit_and_push en repo msg w =
        ((True, msg),
         w\<lparr>trace := trace w @
           [EvGit repo [''add'', ''.''], EvGit repo [''diff'', ''--cached'', ''--name-only''], EvGit repo [''commit'', ''-m'', msg], EvGit repo [''push'']]\<rparr>)) \<and>
   (git_proc en (trace w) repo [''add'', ''.''] = NotRun e \<longrightarrow>
      commit_and_push en repo msg w =
        ((False, ''Error during commit process: '' @ exn_str e),
         w\<lparr>trace := trace w @
           [EvGit repo [''add'', ''.'']]\<rparr>)) \<and>
   (git_proc en (trace w) repo [''add'', ''.''] = Completed 0 out1 err1 \<and>
    git_proc en (trace w @ [EvGit repo [''add'', ''.'']]) repo [''diff'', ''--cached'', ''--name-only''] = NotRun e \<longrightarrow>
      commit_and_push en repo msg w =
        ((False, ''Error during commit process: '' @ exn_str e),
         w\<lparr>trace := trace w @
           [EvGit repo [''add'', ''.''], EvGit repo [''diff'', ''--cached'', ''--name-only'']]\<rparr>)) \<and>
   (git_proc en (trace w) repo [''add'', ''.''] = Completed 0 out1 err1 \<and>
    git_proc en (trace w @ [EvGit repo [''add'', ''.'']]) repo [''diff'', ''--cached'', ''--name-only''] = Completed 0 out2 err2 \<and>
    strip out2 \<noteq> [] \<and>
    git_proc en (trace w @ [EvGit repo [''add'', ''.''], EvGit repo [''diff'', ''--cached'', ''--name-only'']]) repo [''commit'', ''-m'', msg] = NotRun e \<longrightarrow>
      commit_and_push en repo msg w =
        ((False, ''Error during commit process: '' @ exn_str e),
         w\<lparr>trace := trace w @
           [EvGit repo [''add'', ''.''], EvGit repo [''diff'', ''--cached'', ''--name-only''], EvGit repo [''commit'', ''-m'', msg]]\<rparr>)) \<and>
   (git_proc en (trace w) repo [''add'', ''.''] = Completed 0 out1 err1 \<and>
    git_proc en (trace w @ [EvGit repo [''add'', ''.'']]) repo [''diff'', ''--cached'', ''--name-only''] = Completed 0 out2 err2 \<and>
    strip out2 \<noteq> [] \<and>
    git_proc en (trace w @ [EvGit repo [''add'', ''.''], EvGit repo [''diff'', ''--cached'', ''--name-only'']]) repo [''commit'', ''-m'', msg] = Completed 0 out3 err3 \<and>
    git_proc en (trace w @ [EvGit repo [''add'', ''.''], EvGit repo [''diff'', ''--cached'', ''--name-only''], EvGit repo [''commit'', ''-m'', msg]]) repo [''push''] = NotRun e \<longrightarrow>
      commit_and_push en repo msg w =
        ((False, ''Error during commit process: '' @ exn_str e),
         w\<lparr>trace := trace w @
           [EvGit repo [''add'', ''.''], EvGit repo [''diff'', ''--cached'', ''--name-only''], EvGit repo [''commit'', ''-m'', msg], EvGit repo [''push'']]\<rparr>))"
  by (intro conjI impI; (elim conjE)?;
      (rule cap_stage_failed cap_nothing_staged cap_commit_failed cap_push_failed
            cap_all_succeed cap_not_run_1 cap_not_run_2 cap_not_run_3 cap_not_run_4;
       assumption))


theorem commit_and_push_steps_witness:
  "git_proc demo_env (trace demo_world) ''/repo'' [''add'', ''.''] = Completed 0 ''app.py'' [] \<and>
   git_proc demo_env (trace demo_world @ [EvGit ''/repo'' [''add'', ''.'']]) ''/repo''
     [''diff'', ''--cached'', ''--name-only''] = Completed 0 ''app.py'' [] \<and>
   strip ''app.py'' \<noteq> [] \<and>
   git_proc demo_env (trace demo_world @ [EvGit ''/repo'' [''add'', ''.''],
       EvGit ''/repo'' [''diff'', ''--cached'', ''--name-only'']]) ''/repo''
     [''commit'', ''-m'', ''refactor: improve code readability''] = Completed 0 ''app.py'' [] \<and>
   git_proc demo_env (trace demo_world @ [EvGit ''/repo'' [''add'', ''.''],
       EvGit ''/repo'' [''diff'', ''--cached'', ''--name-only''],
       EvGit ''/repo'' [''commit'', ''-m'', ''refactor: improve code readability'']]) ''/repo''
     [''push''] = Completed 0 ''app.py'' [] \<and>
   commit_and_push demo_env ''/repo'' ''refactor: improve code readability'' demo_world =
     ((True, ''refactor: improve code readability''),
      demo_world\<lparr>trace := trace demo_world @
        [EvGit ''/repo'' [''add'', ''.''],
         EvGit ''/repo'' [''diff'', ''--cached'', ''--name-only''],
         EvGit ''/repo'' [''commit'', ''-m'', ''refactor: improve code readability''],
         EvGit ''/repo'' [''push'']]\<rparr>) \<and>
   git_proc nostage_env (trace demo_world) ''/repo'' [''add'', ''.''] =
     Completed 128 [] (''fatal: not a git repository'' @ [newline]) \<and>
   (128::int) \<noteq> 0 \<and>
   commit_and_push nostage_env ''/repo'' ''refactor: improve code readability'' demo_world =
     ((False, ''Failed to stage files: '' @ strip (''fatal: not a git repository'' @ [newline])),
      demo_world\<lparr>trace := trace demo_world @ [EvGit ''/repo'' [''add'', ''.'']]\<rparr>)"
proof -
  have g: "\<And>h c. git_proc demo_env h ''/repo'' c = Completed 0 ''app.py'' []"
    by (simp add: demo_env_def)
  have s: "strip ''app.py'' \<noteq> []"
    by (simp add: strip_def is_space_def)
  have n: "git_proc nostage_env (trace demo_world) ''/repo'' [''add'', ''.''] =
     Completed 128 [] (''fatal: not a git repository'' @ [newline])"
    by (simp add: nostage_env_def)
  have z: "(128::int) \<noteq> 0"
    by simp
  note all_ok = commit_and_push_steps
    [where en = demo_env and w = demo_world and repo = "''/repo''"
       and msg = "''refactor: improve code readability''"
       and ?out1.0 = "''app.py''" and ?err1.0 = "[]" and ?out2.0 = "''app.py''" and ?err2.0 = "[]"
       and ?out3.0 = "''app.py''" and ?err3.0 = "[]" and ?out4.0 = "''app.py''" and ?err4.0 = "[]",
     THEN conjunct2, THEN conjunct2, THEN conjunct2, THEN conjunct2, THEN conjunct1, THEN mp]
  have a: "commit_and_push demo_env ''/repo'' ''refactor: improve code readability'' demo_world =
     ((True, ''refactor: improve code readability''),
      demo_world\<lparr>trace := trace demo_world @
        [EvGit ''/repo'' [''add'', ''.''],
         EvGit ''/repo'' [''diff'', ''--cached'', ''--name-only''],
         EvGit ''/repo'' [''commit'', ''-m'', ''refactor: improve code readability''],
         EvGit ''/repo'' [''push'']]\<rparr>)"
    by (rule all_ok) (intro conjI g s)
  note stage = commit_and_push_steps
    [where en = nostage_env and w = demo_world and repo = "''/repo''"
       and msg = "''refactor: improve code readability''" and rc = 128
       and ?out1.0 = "[]" and ?err1.0 = "''fatal: not a git repository'' @ [newline]",
     THEN conjunct1, THEN mp]
  have b: "commit_and_push nostage_env ''/repo'' ''refactor: improve code readability'' demo_world =
     ((False, ''Failed to stage files: '' @ strip (''fatal: not a git repository'' @ [newline])),
      demo_world\<lparr>trace := trace demo_world @ [EvGit ''/repo'' [''add'', ''.'']]\<rparr>)"
    by (rule stage) (intro conjI n z)
  show ?thesis
    by (intro conjI g s n z a b)
qed

section \<open>The mutation applier\<close>

lemma take_drop_no_newline:
  assumes "\<forall>l\<in>set xs. newline \<notin> set l"
  shows "\<forall>l\<in>set (take a xs @ split_nl s @ drop b xs). newline \<notin> set l"
  using assms split_nl_no_newline [of _ s]
  by (auto dest: in_set_takeD in_set_dropD)

text \<open>
  Claim C2.  Take a section whose first and last selected lines carry the original indices
  \<open>start_line \<le> end_line\<close>, inside a file whose lines are \<open>all_lines\<close>, and any replacement
  text (empty, one line or several).  When the write goes through,
  \<open>apply_code_modification\<close> returns \<open>True\<close> and the file it has written, split at newlines
  again, is the lines before \<open>start_line\<close>, the lines of the replacement, and the lines
  after \<open>end_line\<close>: every line before \<open>start_line\<close> stands where it stood, every line
  after \<open>end_line\<close> follows in its order, shifted by the change of length, and no other
  file is touched.
\<close>

theorem apply_code_modification_frame:
  assumes sel: "lines sec \<noteq> []"
      and st: "start_line = fst (hd (lines sec))"
      and fin: "end_line = fst (last (lines sec))"
      and ord: "start_line \<le> end_line"
      and bnd: "end_line < length (all_lines sec)"
      and nl: "\<forall>l\<in>set (all_lines sec). newline \<notin> set l"
      and ok: "write_fault en (trace w) (file_path sec) = None"
  shows "\<exists>w' new_file.
           apply_code_modification en sec improved_code w = (True, w') \<and>
           text_of w' (file_path sec) = Inr new_file \<and>
           (\<forall>p. p \<noteq> file_path sec \<longrightarrow> text_of w' p = text_of w p) \<and>
           split_nl new_file =
             take start_line (all_lines sec) @ split_nl improved_code @
             drop (Suc end_line) (all_lines sec) \<and>
           length (split_nl new_file) =
             start_line + length (split_nl improved_code) + (length (all_lines sec) - Suc end_line) \<and>
           (\<forall>i<start_line. split_nl new_file ! i = all_lines sec ! i) \<and>
           (\<forall>j. end_line < j \<and> j < length (all_lines sec) \<longrightarrow>
                split_nl new_file ! (start_line + length (split_nl improved_code) + (j - Suc end_line)) =
                all_lines sec ! j)"
proof -
  let ?new = "split_nl improved_code"
  let ?mod = "take start_line (all_lines sec) @ ?new @ drop (Suc end_line) (all_lines sec)"
  let ?file = "join_nl ?mod"
  let ?w' = "w\<lparr>text_of := (text_of w)(file_path sec := Inr ?file),
               st_size := (st_size w)(file_path sec := Inr (utf8_size ?file)),
               trace := trace w @ [EvWrite (file_path sec) ?file True]\<rparr>"
  have run: "apply_code_modification en sec improved_code w = (True, ?w')"
    using sel ok st fin by (simp add: apply_code_modification_def write_text_def Let_def)
  have ne: "?mod \<noteq> []"
    using split_nl_nonempty [of improved_code] by simp
  have split: "split_nl ?file = ?mod"
    using ne take_drop_no_newline [OF nl] by (rule split_join_nl)
  have len_take: "length (take start_line (all_lines sec)) = start_line"
    using ord bnd by simp
  have len: "length ?mod = start_line + length ?new + (length (all_lines sec) - Suc end_line)"
    using len_take by simp
  have before: "\<forall>i<start_line. ?mod ! i = all_lines sec ! i"
    using len_take by (simp add: nth_append)
  have after: "\<forall>j. end_line < j \<and> j < length (all_lines sec) \<longrightarrow>
      ?mod ! (start_line + length ?new + (j - Suc end_line)) = all_lines sec ! j"
  proof (intro allI impI)
    fix j assume j: "end_line < j \<and> j < length (all_lines sec)"
    have "?mod ! (start_line + length ?new + (j - Suc end_line)) =
          drop (Suc end_line) (all_lines sec) ! (j - Suc end_line)"
      using len_take by (simp add: nth_append)
    also have "\<dots> = all_lines sec ! j"
      using j by simp
    finally show "?mod ! (start_line + length ?new + (j - Suc end_line)) = all_lines sec ! j" .
  qed
  have a: "text_of ?w' (file_path sec) = Inr ?file" by simp
  have b: "\<forall>p. p \<noteq> file_path sec \<longrightarrow> text_of ?w' p = text_of w p" by simp
  have c: "length (split_nl ?file) =
      start_line + length ?new + (length (all_lines sec) - Suc end_line)"
    using len by (simp only: split)
  have d: "\<forall>i<start_line. split_nl ?file ! i = all_lines sec ! i"
    using before by (simp only: split)
  have e: "\<forall>j. end_line < j \<and> j < length (all_lines sec) \<longrightarrow>
      split_nl ?file ! (start_line + length ?new + (j - Suc end_line)) = all_lines sec ! j"
    using after by (simp only: split)
  from run a b split c d e show ?thesis
    by (intro exI [of _ ?w'] exI [of _ ?file] conjI)
qed


lemma demo_all_lines:
  "all_lines demo_section =
     [''import os, sys'', ''# helper functions'', ''def alpha(x, y):'', ''    return x + y'', [],
      ''print(alpha(1, 2))'',
      ''def beta(items, scale):'', ''    total = sum(items) * scale'',
      ''    return total / len(items)'', ''value = alpha(10, 20) + beta([1, 2], 3)'',
      ''print(beta([1, 2, 3], 2), value)'',
      ''result = [alpha(n, n) + alpha(1,n) for n in range(10)]'']"
  unfolding demo_section_def demo_text_def
  by (simp add: split_join_nl newline_def)

theorem apply_code_modification_frame_witness:
  "lines demo_section \<noteq> [] \<and>
   2 = fst (hd (lines demo_section)) \<and>
   3 = fst (last (lines demo_section)) \<and>
   (2::nat) \<le> 3 \<and>
   3 < length (all_lines demo_section) \<and>
   list_all (\<lambda>l. newline \<notin> set l) (all_lines demo_section) \<and>
   write_fault demo_env (trace demo_world) (file_path demo_section) = None \<and>
   (\<exists>w' new_file.
      apply_code_modification demo_env demo_section ''def beta(x):'' demo_world = (True, w') \<and>
      text_of w' ''/repo/app.py'' = Inr new_file \<and>
      split_nl new_file =
        [''import os, sys'', ''# helper functions'', ''def beta(x):'', [], ''print(alpha(1, 2))'',
         ''def beta(items, scale):'', ''    total = sum(items) * scale'',
         ''    return total / len(items)'', ''value = alpha(10, 20) + beta([1, 2], 3)'',
         ''print(beta([1, 2, 3], 2), value)'',
         ''result = [alpha(n, n) + alpha(1,n) for n in range(10)]''])"
proof -
  have h1: "lines demo_section \<noteq> []"
    and h2: "2 = fst (hd (lines demo_section))"
    and h3: "3 = fst (last (lines demo_section))"
    and fp: "file_path demo_section = ''/repo/app.py''"
    by (simp_all add: demo_section_def)
  have h4: "(2::nat) \<le> 3" by simp
  have h5: "3 < length (all_lines demo_section)"
    by (simp add: demo_all_lines)
  have h6: "list_all (\<lambda>l. newline \<notin> set l) (all_lines demo_section)"
    by (simp add: demo_all_lines newline_def)
  then have h6': "\<forall>l\<in>set (all_lines demo_section). newline \<notin> set l"
    by (simp add: list_all_iff)
  have h7: "write_fault demo_env (trace demo_world) (file_path demo_section) = None"
    by (simp add: demo_env_def)
  have new: "split_nl ''def beta(x):'' = [''def beta(x):'']"
    by (simp add: newline_def)
  from apply_code_modification_frame [OF h1 h2 h3 h4 h5 h6' h7, of "''def beta(x):''"]
  obtain w' new_file where
    "apply_code_modification demo_env demo_section ''def beta(x):'' demo_world = (True, w')"
    "text_of w' (file_path demo_section) = Inr new_file"
    "split_nl new_file =
       take 2 (all_lines demo_section) @ split_nl ''def beta(x):'' @
       drop (Suc 3) (all_lines demo_section)"
    by blast
  then have "\<exists>w' new_file.
      apply_code_modification demo_env demo_section ''def beta(x):'' demo_world = (True, w') \<and>
      text_of w' ''/repo/app.py'' = Inr new_file \<and>
      split_nl new_file =
        [''import os, sys'', ''# helper functions'', ''def beta(x):'', [], ''print(alpha(1, 2))'',
         ''def beta(items, scale):'', ''    total = sum(items) * scale'',
         ''    return total / len(items)'', ''value = alpha(10, 20) + beta([1, 2], 3)'',
         ''print(beta([1, 2, 3], 2), value)'',
         ''result = [alpha(n, n) + alpha(1,n) for n in range(10)]'']"
    unfolding fp new demo_all_lines by simp
  with h1 h2 h3 h4 h5 h6 h7 show ?thesis
    by (intro conjI)
qed

section \<open>The section selector\<close>

lemma randint_in_range:
  assumes "a \<le> b"
  shows "\<exists>v. randint en a b w = (Inr v, w\<lparr>draws := Suc (draws w)\<rparr>) \<and> a \<le> v \<and> v \<le> b"
proof -
  let ?r = "int (rand en (draws w)) mod (b - a + 1)"
  have pos: "0 < b - a + 1" using assms by simp
  have "0 \<le> ?r" using pos by (rule pos_mod_sign)
  moreover have "?r < b - a + 1" using pos by (rule pos_mod_bound)
  ultimately have r: "0 \<le> ?r" "?r \<le> b - a" by linarith+
  have eq: "randint en a b w = (Inr (a + ?r), w\<lparr>draws := Suc (draws w)\<rparr>)"
    using assms by (simp add: randint_def)
  show ?thesis
  proof (intro exI conjI)
    show "randint en a b w = (Inr (a + ?r), w\<lparr>draws := Suc (draws w)\<rparr>)" by (rule eq)
    show "a \<le> a + ?r" using r by linarith
    show "a + ?r \<le> b" using r by linarith
  qed
qed

lemma meaningful_lines_sound:
  "(i, l) \<in> set (meaningful_lines ls) \<Longrightarrow> i < length ls \<and> ls ! i = l"
  by (auto simp: meaningful_lines_def in_set_enumerate_eq)

lemma enumerate_increasing: "sorted_wrt (\<lambda>a b. fst a < fst b) (enumerate n xs)"
  by (induction xs arbitrary: n) (auto simp: in_set_enumerate_eq)

lemma meaningful_lines_increasing: "sorted_wrt (<) (map fst (meaningful_lines ls))"
  unfolding meaningful_lines_def sorted_wrt_map
  by (rule sorted_wrt_filter) (rule enumerate_increasing)

lemma increasing_hd_le_last:
  fixes xs :: "(nat \<times> 'b) list"
  assumes "sorted_wrt (<) (map fst xs)" and "xs \<noteq> []"
  shows "fst (hd xs) \<le> fst (last xs)"
proof (cases "length xs = 1")
  case True
  then show ?thesis by (cases xs) auto
next
  case False
  with assms(2) have len: "1 < length xs" by (cases xs) auto
  have "map fst xs ! 0 < map fst xs ! (length xs - 1)"
    using sorted_wrt_nth_less [OF assms(1), of 0 "length xs - 1"] len by simp
  then show ?thesis
    using assms(2) len by (simp add: hd_conv_nth last_conv_nth)
qed


text \<open>
  Claim C3.  For a file that can be read, \<open>select_random_code_section\<close> returns no section
  when fewer than 3 lines are meaningful.  Otherwise it returns a section whose selection
  has 2 or 3 entries and is the run of that length at some offset \<open>off\<close> of the list of
  meaningful lines, with \<open>off\<close> plus the length within the list; every selected entry
  carries the index its text has in the file's lines, the indices increase, and the range
  from the first to the last lies inside the file.
\<close>

theorem select_random_code_section_bounds:
  assumes rd: "text_of w fp = Inr text"
  shows "(length (meaningful_lines (split_nl text)) < 3 \<longrightarrow>
            fst (select_random_code_section en fp w) = None) \<and>
         (3 \<le> length (meaningful_lines (split_nl text)) \<longrightarrow>
            (\<exists>sec off.
               fst (select_random_code_section en fp w) = Some sec \<and>
               (length (lines sec) = 2 \<or> length (lines sec) = 3) \<and>
               off + length (lines sec) \<le> length (meaningful_lines (split_nl text)) \<and>
               lines sec =
                 take (length (lines sec)) (drop off (meaningful_lines (split_nl text))) \<and>
               file_path sec = fp \<and>
               content sec = text \<and>
               all_lines sec = split_nl text \<and>
               language sec = detect_language fp \<and>
               (\<forall>(i, l)\<in>set (lines sec). i < length (all_lines sec) \<and> all_lines sec ! i = l) \<and>
               sorted_wrt (<) (map fst (lines sec)) \<and>
               fst (hd (lines sec)) \<le> fst (last (lines sec)) \<and>
               fst (last (lines sec)) < length (all_lines sec)))"
proof (intro conjI impI)
  assume "length (meaningful_lines (split_nl text)) < 3"
  then show "fst (select_random_code_section en fp w) = None"
    using rd by (simp add: select_random_code_section_def Let_def)
next
  let ?ml = "meaningful_lines (split_nl text)"
  let ?w = "w\<lparr>trace := trace w @ [EvRead fp]\<rparr>"
  assume big: "3 \<le> length ?ml"
  then have m: "min 3 (int (length ?ml)) = 3" by simp
  from randint_in_range [of 2 3 en ?w]
  obtain size where size: "randint en 2 3 ?w = (Inr size, ?w\<lparr>draws := Suc (draws ?w)\<rparr>)"
    and size_range: "2 \<le> size" "size \<le> 3"
    by auto
  let ?w1 = "?w\<lparr>draws := Suc (draws ?w)\<rparr>"
  have room: "0 \<le> int (length ?ml) - size" using big size_range by simp
  from randint_in_range [OF room, of en ?w1]
  obtain start where start: "randint en 0 (int (length ?ml) - size) ?w1 =
      (Inr start, ?w1\<lparr>draws := Suc (draws ?w1)\<rparr>)"
    and start_range: "0 \<le> start" "start \<le> int (length ?ml) - size"
    by auto
  let ?sel = "take (nat size) (drop (nat start) ?ml)"
  let ?sec = "\<lparr>file_path = fp, lines = ?sel, content = text, all_lines = split_nl text,
               language = detect_language fp\<rparr>"
  have res: "fst (select_random_code_section en fp w) = Some ?sec"
    using rd big size start
    by (simp add: select_random_code_section_def Let_def m)
  have fits: "nat start + nat size \<le> length ?ml"
    using start_range size_range by linarith
  then have len: "length ?sel = nat size" by simp
  have two_three: "nat size = 2 \<or> nat size = 3"
    using size_range by linarith
  then have ne: "?sel \<noteq> []" using len by auto
  have sub: "set ?sel \<subseteq> set ?ml"
    by (meson set_take_subset set_drop_subset subset_trans)
  have idx: "\<forall>(i, l)\<in>set ?sel. i < length (split_nl text) \<and> split_nl text ! i = l"
    using sub meaningful_lines_sound by blast
  have inc: "sorted_wrt (<) (map fst ?sel)"
    using meaningful_lines_increasing [of "split_nl text"]
    by (simp add: take_map [symmetric] drop_map [symmetric] sorted_wrt_take sorted_wrt_drop)
  have ord: "fst (hd ?sel) \<le> fst (last ?sel)"
    using inc ne by (rule increasing_hd_le_last)
  have "last ?sel \<in> set ?sel" using ne by (rule last_in_set)
  with idx have bnd: "fst (last ?sel) < length (split_nl text)"
    by (auto simp: case_prod_beta)
  show "\<exists>sec off.
      fst (select_random_code_section en fp w) = Some sec \<and>
      (length (lines sec) = 2 \<or> length (lines sec) = 3) \<and>
      off + length (lines sec) \<le> length ?ml \<and>
      lines sec = take (length (lines sec)) (drop off ?ml) \<and>
      file_path sec = fp \<and>
      content sec = text \<and>
      all_lines sec = split_nl text \<and>
      language sec = detect_language fp \<and>
      (\<forall>(i, l)\<in>set (lines sec). i < length (all_lines sec) \<and> all_lines sec ! i = l) \<and>
      sorted_wrt (<) (map fst (lines sec)) \<and>
      fst (hd (lines sec)) \<le> fst (last (lines sec)) \<and>
      fst (last (lines sec)) < length (all_lines sec)"
  proof (intro exI [of _ ?sec] exI [of _ "nat start"] conjI)
    show "fst (select_random_code_section en fp w) = Some ?sec" by (rule res)
    show "length (lines ?sec) = 2 \<or> length (lines ?sec) = 3" using two_three len by simp
    show "nat start + length (lines ?sec) \<le> length ?ml" using fits len by simp
    show "lines ?sec = take (length (lines ?sec)) (drop (nat start) ?ml)" using len by simp
    show "file_path ?sec = fp" by simp
    show "content ?sec = text" by simp
    show "all_lines ?sec = split_nl text" by simp
    show "language ?sec = detect_language fp" by simp
    show "\<forall>(i, l)\<in>set (lines ?sec). i < length (all_lines ?sec) \<and> all_lines ?sec ! i = l"
      using idx by simp
    show "sorted_wrt (<) (map fst (lines ?sec))" using inc by simp
    show "fst (hd (lines ?sec)) \<le> fst (last (lines ?sec))" using ord by simp
    show "fst (last (lines ?sec)) < length (all_lines ?sec)" using bnd by simp
  qed
qed


lemma demo_split:
  "split_nl demo_text =
     [''import os, sys'', ''# helper functions'', ''def alpha(x, y):'', ''    return x + y'', [],
      ''print(alpha(1, 2))'',
      ''def beta(items, scale):'', ''    total = sum(items) * scale'',
      ''    return total / len(items)'', ''value = alpha(10, 20) + beta([1, 2], 3)'',
      ''print(beta([1, 2, 3], 2), value)'',
      ''result = [alpha(n, n) + alpha(1,n) for n in range(10)]'']"
  unfolding demo_text_def
  by (simp add: split_join_nl newline_def)

lemma demo_meaningful:
  "meaningful_lines (split_nl demo_text) =
     [(0, ''import os, sys''), (2, ''def alpha(x, y):''), (3, ''    return x + y''),
      (5, ''print(alpha(1, 2))''), (6, ''def beta(items, scale):''),
      (7, ''    total = sum(items) * scale''), (8, ''    return total / len(items)''),
      (9, ''value = alpha(10, 20) + beta([1, 2], 3)''),
      (10, ''print(beta([1, 2, 3], 2), value)''),
      (11, ''result = [alpha(n, n) + alpha(1,n) for n in range(10)]'')]"
  unfolding demo_split
  by (simp add: meaningful_lines_def enumerate_eq_zip meaningful_def strip_def is_space_def
      upt_conv_Cons)


lemma tiny_split:
  "split_nl tiny_text =
     [''# tiny helper script: prints one number and exits'', ''print(1234567890)'']"
  by (simp add: tiny_text_def newline_def)

lemma tiny_meaningful:
  "meaningful_lines (split_nl tiny_text) =
     [(1, ''print(1234567890)'')]"
  unfolding tiny_split
  by (simp add: meaningful_lines_def enumerate_eq_zip meaningful_def
      strip_def is_space_def upt_conv_Cons)

theorem select_random_code_section_bounds_witness:
  "text_of demo_world ''/repo/app.py'' = Inr demo_text \<and>
   3 \<le> length (meaningful_lines (split_nl demo_text)) \<and>
   (\<exists>sec off.
      fst (select_random_code_section demo_env ''/repo/app.py'' demo_world) = Some sec \<and>
      (length (lines sec) = 2 \<or> length (lines sec) = 3) \<and>
      off + length (lines sec) \<le> 10 \<and>
      fst (hd (lines sec)) \<le> fst (last (lines sec)) \<and>
      fst (last (lines sec)) < 12) \<and>
   text_of demo_world ''/small/tiny.py'' = Inr tiny_text \<and>
   length (meaningful_lines (split_nl tiny_text)) < 3 \<and>
   fst (select_random_code_section demo_env ''/small/tiny.py'' demo_world) = None"
proof -
  note h1 = demo_text_app
  have h2: "3 \<le> length (meaningful_lines (split_nl demo_text))"
    unfolding demo_meaningful by simp
  note k1 = demo_text_tiny
  have k2: "length (meaningful_lines (split_nl tiny_text)) < 3"
    unfolding tiny_meaningful by simp
  note sel = select_random_code_section_bounds
    [OF h1, of demo_env, THEN conjunct2, THEN mp, OF h2]
  from sel obtain sec off where
    f1: "fst (select_random_code_section demo_env ''/repo/app.py'' demo_world) = Some sec"
    and f2: "length (lines sec) = 2 \<or> length (lines sec) = 3"
    and f3: "off + length (lines sec) \<le> length (meaningful_lines (split_nl demo_text))"
    and f4: "all_lines sec = split_nl demo_text"
    and f5: "fst (hd (lines sec)) \<le> fst (last (lines sec))"
    and f6: "fst (last (lines sec)) < length (all_lines sec)"
    by (elim exE conjE) (rule that)
  have len_ml: "length (meaningful_lines (split_nl demo_text)) = 10"
    unfolding demo_meaningful by simp
  have len_all: "length (split_nl demo_text) = 12"
    unfolding demo_split by simp
  have g3: "off + length (lines sec) \<le> 10"
    using f3 by (simp only: len_ml)
  have g6: "fst (last (lines sec)) < 12"
    using f6 by (simp only: f4 len_all)
  have a: "\<exists>sec off.
      fst (select_random_code_section demo_env ''/repo/app.py'' demo_world) = Some sec \<and>
      (length (lines sec) = 2 \<or> length (lines sec) = 3) \<and>
      off + length (lines sec) \<le> 10 \<and>
      fst (hd (lines sec)) \<le> fst (last (lines sec)) \<and>
      fst (last (lines sec)) < 12"
    using f1 f2 g3 f5 g6 by (intro exI [of _ sec] exI [of _ off] conjI)
  have b: "fst (select_random_code_section demo_env ''/small/tiny.py'' demo_world) = None"
    by (rule select_random_code_section_bounds [OF k1, of demo_env, THEN conjunct1, THEN mp, OF k2])
  from h1 h2 a k1 k2 b show ?thesis
    by (intro conjI)
qed

section \<open>File discovery\<close>

lemma scan_files_sound:
  "scan_files cfg w ps = Inr fs \<Longrightarrow> p \<in> set fs \<Longrightarrow>
     p \<in> set ps \<and>
     (\<forall>pat\<in>set (ignore_patterns cfg). \<not> contains pat p) \<and>
     (\<forall>skip\<in>set system_skips. \<not> contains skip p) \<and>
     (\<exists>n. st_size w p = Inr n \<and> 50 \<le> n \<and> n \<le> 50000)"
proof (induction ps arbitrary: fs)
  case Nil
  then show ?case by simp
next
  case (Cons q qs)
  show ?case
  proof (cases "list_ex (\<lambda>pattern. contains pattern q) (ignore_patterns cfg) \<or>
                list_ex (\<lambda>skip. contains skip q) system_skips")
    case True
    then have "scan_files cfg w qs = Inr fs" using Cons.prems(1) by (auto split: if_splits)
    from Cons.IH [OF this Cons.prems(2)] show ?thesis by simp
  next
    case False
    then have clean: "\<forall>pat\<in>set (ignore_patterns cfg). \<not> contains pat q"
      "\<forall>skip\<in>set system_skips. \<not> contains skip q"
      by (auto simp: list_ex_iff)
    from False Cons.prems(1) obtain n where n: "st_size w q = Inr n"
      by (cases "st_size w q") auto
    show ?thesis
    proof (cases "n < 50 \<or> n > 50000")
      case True
      then have "scan_files cfg w qs = Inr fs" using Cons.prems(1) False n by auto
      from Cons.IH [OF this Cons.prems(2)] show ?thesis by simp
    next
      case inside: False
      with False n Cons.prems(1) obtain fs' where fs': "scan_files cfg w qs = Inr fs'" "fs = q # fs'"
        by (cases "scan_files cfg w qs") auto
      show ?thesis
      proof (cases "p = q")
        case True
        then show ?thesis using clean n inside by auto
      next
        case False
        then have "p \<in> set fs'" using Cons.prems(2) fs' by simp
        from Cons.IH [OF fs'(1) this] show ?thesis by simp
      qed
    qed
  qed
qed

lemma scan_extensions_sound:
  "scan_extensions cfg w repo exts = Inr fs \<Longrightarrow> p \<in> set fs \<Longrightarrow>
     (\<exists>ext\<in>set exts. \<exists>matched. rglob w repo ext = Inr matched \<and> p \<in> set matched) \<and>
     (\<forall>pat\<in>set (ignore_patterns cfg). \<not> contains pat p) \<and>
     (\<forall>skip\<in>set system_skips. \<not> contains skip p) \<and>
     (\<exists>n. st_size w p = Inr n \<and> 50 \<le> n \<and> n \<le> 50000)"
proof (induction exts arbitrary: fs)
  case Nil
  then show ?case by simp
next
  case (Cons ext exts)
  from Cons.prems(1) obtain matched found others where
    matched: "rglob w repo ext = Inr matched"
    and found: "scan_files cfg w matched = Inr found"
    and others: "scan_extensions cfg w repo exts = Inr others"
    and fs: "fs = found @ others"
    by (auto split: sum.splits)
  from Cons.prems(2) fs consider "p \<in> set found" | "p \<in> set others" by auto
  then show ?case
  proof cases
    case 1
    from scan_files_sound [OF found 1] matched show ?thesis by simp
  next
    case 2
    from Cons.IH [OF others 2] show ?thesis by auto
  qed
qed

lemma rglob_literal:
  assumes "rglob w repo ext = Inr matched" and "p \<in> set matched"
      and "\<not> list_ex is_glob_char ext"
  shows "p \<in> set (listing w repo) \<and> endswith (path_name p) ext"
  using assms by (auto simp: rglob_def)

text \<open>
  Claim C1, as amended.  Every path \<open>find_code_files\<close> returns is among the paths
  \<open>rglob\<close> gives for the pattern made of a star and an extension of the configured list;
  when that extension holds no glob character and no separator, the path is one of the
  paths below the root and its name ends with the extension.  No configured ignore
  pattern and none of the fixed exclusions occurs in the path, and its size is at least
  50 and at most 50000 bytes, both bounds included.
\<close>

theorem find_code_files_filters:
  assumes "find_code_files cfg w repo = Inr files"
  shows "\<forall>p\<in>set files.
           (\<exists>ext\<in>set (file_extensions cfg). \<exists>matched.
              rglob w repo ext = Inr matched \<and> p \<in> set matched \<and>
              (\<not> list_ex is_glob_char ext \<longrightarrow>
                 p \<in> set (listing w repo) \<and> endswith (path_name p) ext)) \<and>
           (\<forall>pat\<in>set (ignore_patterns cfg). \<not> contains pat p) \<and>
           (\<forall>skip\<in>set system_skips. \<not> contains skip p) \<and>
           (\<exists>n. st_size w p = Inr n \<and> 50 \<le> n \<and> n \<le> 50000)"
proof
  fix p assume "p \<in> set files"
  note s = scan_extensions_sound [OF assms [unfolded find_code_files_def] this]
  from s [THEN conjunct1] obtain ext matched where
    ext: "ext \<in> set (file_extensions cfg)"
    and m: "rglob w repo ext = Inr matched" "p \<in> set matched"
    by (elim bexE exE conjE) (rule that)
  from rglob_literal [OF m]
  have "\<not> list_ex is_glob_char ext \<longrightarrow> p \<in> set (listing w repo) \<and> endswith (path_name p) ext"
    by (rule impI)
  with ext m have "\<exists>ext\<in>set (file_extensions cfg). \<exists>matched.
      rglob w repo ext = Inr matched \<and> p \<in> set matched \<and>
      (\<not> list_ex is_glob_char ext \<longrightarrow>
         p \<in> set (listing w repo) \<and> endswith (path_name p) ext)"
    by (intro bexI [of _ ext] exI [of _ matched] conjI)
  with s [THEN conjunct2]
  show "(\<exists>ext\<in>set (file_extensions cfg). \<exists>matched.
              rglob w repo ext = Inr matched \<and> p \<in> set matched \<and>
              (\<not> list_ex is_glob_char ext \<longrightarrow>
                 p \<in> set (listing w repo) \<and> endswith (path_name p) ext)) \<and>
           (\<forall>pat\<in>set (ignore_patterns cfg). \<not> contains pat p) \<and>
           (\<forall>skip\<in>set system_skips. \<not> contains skip p) \<and>
           (\<exists>n. st_size w p = Inr n \<and> 50 \<le> n \<and> n \<le> 50000)"
    by (rule conjI [rotated])
qed

lemma demo_rglob_py:
  "rglob demo_world ''/repo'' ''.py'' = Inr [''/repo/app.py'', ''/repo/edge.py'']"
  by (simp add: rglob_def is_glob_char_def demo_listing_repo endswith_def path_name_def)

lemma demo_rglob_js:
  "rglob demo_world ''/repo'' ''.js'' = Inr [''/repo/node_modules/lib.js'']"
  by (simp add: rglob_def is_glob_char_def demo_listing_repo endswith_def path_name_def)

lemma demo_found:
  "find_code_files demo_config demo_world ''/repo'' = Inr [''/repo/app.py'', ''/repo/edge.py'']"
  by (simp add: find_code_files_def demo_config_def demo_rglob_py demo_rglob_js
      demo_size_app demo_size_edge system_skips_def)

lemma demo_hidden_found:
  "find_code_files demo_config demo_world ''/hidden'' = Inr [''/hidden/.py'']"
  by (simp add: find_code_files_def demo_config_def rglob_def is_glob_char_def
      demo_listing_hidden endswith_def path_name_def demo_size_hidden system_skips_def)

text \<open>
  Claim C1 as stated asks for a size strictly between 50 and 50000, and for the
  extension of the file to be in the list.  The file \<open>/repo/edge.py\<close> has exactly 50 bytes
  and is returned.  The file \<open>/hidden/.py\<close> is returned for the pattern \<open>*.py\<close>: its name
  ends with \<open>.py\<close>, and its extension, \<open>Path.suffix\<close>, is the empty string, which is not in
  the list.
\<close>

theorem find_code_files_counterexample:
  "find_code_files demo_config demo_world ''/repo'' = Inr [''/repo/app.py'', ''/repo/edge.py''] \<and>
   st_size demo_world ''/repo/edge.py'' = Inr 50 \<and>
   \<not> (50 < (50::nat) \<and> (50::nat) < 50000) \<and>
   find_code_files demo_config demo_world ''/hidden'' = Inr [''/hidden/.py''] \<and>
   path_suffix ''/hidden/.py'' = [] \<and>
   path_suffix ''/hidden/.py'' \<notin> set (file_extensions demo_config)"
proof -
  have a: "\<not> (50 < (50::nat) \<and> (50::nat) < 50000)" by simp
  have b: "path_suffix ''/hidden/.py'' = []"
    by (simp add: path_suffix_def path_name_def)
  have c: "path_suffix ''/hidden/.py'' \<notin> set (file_extensions demo_config)"
    unfolding b by (simp add: demo_config_def)
  from demo_found demo_size_edge a demo_hidden_found b c show ?thesis
    by (intro conjI)
qed

theorem find_code_files_filters_witness:
  "find_code_files demo_config demo_world ''/repo'' = Inr [''/repo/app.py'', ''/repo/edge.py''] \<and>
   file_extensions demo_config = [''.py'', ''.js''] \<and>
   \<not> list_ex is_glob_char ''.py'' \<and> \<not> list_ex is_glob_char ''.js'' \<and>
   (\<exists>ext matched.
      (ext = ''.py'' \<or> ext = ''.js'') \<and>
      rglob demo_world ''/repo'' ext = Inr matched \<and>
      ''/repo/edge.py'' \<in> set matched \<and>
      ''/repo/edge.py'' \<in> set (listing demo_world ''/repo'') \<and>
      endswith (path_name ''/repo/edge.py'') ext) \<and>
   \<not> contains ''node_modules'' ''/repo/edge.py'' \<and>
   \<not> contains ''venv'' ''/repo/edge.py'' \<and>
   (\<exists>n. st_size demo_world ''/repo/edge.py'' = Inr n \<and> 50 \<le> n \<and> n \<le> 50000)"
proof -
  have m: "''/repo/edge.py'' \<in> set [''/repo/app.py'', ''/repo/edge.py'']" by simp
  note f = find_code_files_filters [OF demo_found, THEN bspec, OF m]
  note b = f [THEN conjunct1]
  note c = f [THEN conjunct2, THEN conjunct1]
  note d = f [THEN conjunct2, THEN conjunct2, THEN conjunct1]
  note e = f [THEN conjunct2, THEN conjunct2, THEN conjunct2]
  have exts: "file_extensions demo_config = [''.py'', ''.js'']"
    by (simp add: demo_config_def)
  have lit: "\<not> list_ex is_glob_char ''.py''" "\<not> list_ex is_glob_char ''.js''"
    by (simp_all add: is_glob_char_def)
  from c have c': "\<not> contains ''node_modules'' ''/repo/edge.py''"
    by (rule bspec) (simp add: demo_config_def)
  from d have d': "\<not> contains ''venv'' ''/repo/edge.py''"
    by (rule bspec) (simp add: system_skips_def)
  from b obtain ext matched where
    x: "ext \<in> set (file_extensions demo_config)"
    and r: "rglob demo_world ''/repo'' ext = Inr matched"
    and i: "''/repo/edge.py'' \<in> set matched"
    and l: "\<not> list_ex is_glob_char ext \<longrightarrow>
            ''/repo/edge.py'' \<in> set (listing demo_world ''/repo'') \<and>
            endswith (path_name ''/repo/edge.py'') ext"
    by (elim bexE exE conjE) (rule that)
  from x have x': "ext = ''.py'' \<or> ext = ''.js''"
    by (simp only: exts list.set insert_iff empty_iff simp_thms)
  then have "\<not> list_ex is_glob_char ext"
    using lit by (elim disjE) simp_all
  with l have l1: "''/repo/edge.py'' \<in> set (listing demo_world ''/repo'')"
    and l2: "endswith (path_name ''/repo/edge.py'') ext"
    by (simp_all only: simp_thms)
  from x' r i l1 l2 have b': "\<exists>ext matched.
      (ext = ''.py'' \<or> ext = ''.js'') \<and>
      rglob demo_world ''/repo'' ext = Inr matched \<and>
      ''/repo/edge.py'' \<in> set matched \<and>
      ''/repo/edge.py'' \<in> set (listing demo_world ''/repo'') \<and>
      endswith (path_name ''/repo/edge.py'') ext"
    by (intro exI [of _ ext] exI [of _ matched] conjI)
  from demo_found exts lit b' c' d' e show ?thesis
    by (intro conjI)
qed

section \<open>The existing source files\<close>

lemma filter_existing_eq:
  assumes "\<forall>p\<in>set fs. \<exists>n. st_size w p = Inr n"
  shows "filter_existing w fs =
           Inr (filter (\<lambda>p. \<not> list_ex (\<lambda>skip. contains skip p) generated_markers \<and>
                           (\<exists>n. st_size w p = Inr n \<and> 200 < n)) fs)"
  using assms
proof (induction fs)
  case Nil
  then show ?case by simp
next
  case (Cons q qs)
  then obtain n where n: "st_size w q = Inr n" by auto
  from Cons have IH: "filter_existing w qs =
      Inr (filter (\<lambda>p. \<not> list_ex (\<lambda>skip. contains skip p) generated_markers \<and>
                      (\<exists>n. st_size w p = Inr n \<and> 200 < n)) qs)"
    by simp
  show ?case
    by (simp add: IH n)
qed

text \<open>
  Claim C5, as amended.  The existing source files are the candidates whose path holds
  none of the markers \<open>fixes\<close>, \<open>features\<close>, \<open>performance\<close>, \<open>security\<close> and whose size is
  above 200 bytes.  When discovery returns at least one candidate and none of them is
  such a file, \<open>make_dynamic_commit\<close> returns
  \<open>(False, "No existing source files found to modify")\<close>; when discovery returns no
  candidate at all it returns \<open>(False, "No suitable code files found")\<close>.  In both cases the
  state is left as it was: no file is read, the provider is not called, nothing is
  written and git is not run.
\<close>

theorem make_dynamic_commit_no_existing_files:
  assumes "find_code_files cfg w repo = Inr code_files"
  shows "\<exists>existing.
           filter_existing w code_files = Inr existing \<and>
           existing =
             filter (\<lambda>p. \<not> list_ex (\<lambda>skip. contains skip p) generated_markers \<and>
                         (\<exists>n. st_size w p = Inr n \<and> 200 < n)) code_files \<and>
           (code_files = [] \<longrightarrow>
              make_dynamic_commit en cfg repo w = ((False, ''No suitable code files found''), w)) \<and>
           (code_files \<noteq> [] \<and> existing = [] \<longrightarrow>
              make_dynamic_commit en cfg repo w =
                ((False, ''No existing source files found to modify''), w))"
proof -
  let ?existing = "filter (\<lambda>p. \<not> list_ex (\<lambda>skip. contains skip p) generated_markers \<and>
                         (\<exists>n. st_size w p = Inr n \<and> 200 < n)) code_files"
  have "\<forall>p\<in>set code_files. \<exists>n. st_size w p = Inr n"
    using scan_extensions_sound [OF assms [unfolded find_code_files_def]] by blast
  then have ex: "filter_existing w code_files = Inr ?existing"
    by (rule filter_existing_eq)
  have none: "code_files = [] \<longrightarrow>
      make_dynamic_commit en cfg repo w = ((False, ''No suitable code files found''), w)"
    using assms by (simp add: make_dynamic_commit_def)
  have some: "code_files \<noteq> [] \<and> ?existing = [] \<longrightarrow>
      make_dynamic_commit en cfg repo w =
        ((False, ''No existing source files found to modify''), w)"
    using assms ex by (simp add: make_dynamic_commit_def)
  from ex none some show ?thesis
    by (intro exI [of _ ?existing] conjI refl)
qed

lemma demo_small_found:
  "find_code_files demo_config demo_world ''/small'' = Inr [''/small/tiny.py'']"
  by (simp add: find_code_files_def demo_config_def rglob_def is_glob_char_def
      demo_listing_small endswith_def path_name_def demo_size_tiny system_skips_def)

lemma demo_empty_found:
  "find_code_files demo_config demo_world ''/empty'' = Inr []"
  by (simp add: find_code_files_def demo_config_def rglob_def is_glob_char_def
      demo_listing_empty)

lemma demo_small_existing: "filter_existing demo_world [''/small/tiny.py''] = Inr []"
  by (simp add: demo_size_tiny generated_markers_def)

text \<open>
  Claim C5 as stated gives the message \<open>No existing source files found to modify\<close>
  whenever no file is eligible.  Below \<open>/empty\<close> there is no candidate, so no eligible file
  either, and the result is the other message.
\<close>

theorem make_dynamic_commit_no_candidates_counterexample:
  "find_code_files demo_config demo_world ''/empty'' = Inr [] \<and>
   filter_existing demo_world [] = Inr [] \<and>
   make_dynamic_commit demo_env demo_config ''/empty'' demo_world =
     ((False, ''No suitable code files found''), demo_world) \<and>
   fst (make_dynamic_commit demo_env demo_config ''/empty'' demo_world) \<noteq>
     (False, ''No existing source files found to modify'')"
  using demo_empty_found by (simp add: make_dynamic_commit_def)

theorem make_dynamic_commit_no_existing_files_witness:
  "find_code_files demo_config demo_world ''/small'' = Inr [''/small/tiny.py''] \<and>
   filter_existing demo_world [''/small/tiny.py''] = Inr [] \<and>
   make_dynamic_commit demo_env demo_config ''/small'' demo_world =
     ((False, ''No existing source files found to modify''), demo_world)"
proof -
  from make_dynamic_commit_no_existing_files [OF demo_small_found, of demo_env]
  obtain existing where
    e1: "filter_existing demo_world [''/small/tiny.py''] = Inr existing"
    and e2: "[''/small/tiny.py''] \<noteq> [] \<and> existing = [] \<longrightarrow>
      make_dynamic_commit demo_env demo_config ''/small'' demo_world =
        ((False, ''No existing source files found to modify''), demo_world)"
    by (elim exE conjE) (rule that)
  from e1 have "existing = []"
    unfolding demo_small_existing by simp
  with e2 have "make_dynamic_commit demo_env demo_config ''/small'' demo_world =
     ((False, ''No existing source files found to modify''), demo_world)"
    by simp
  with demo_small_found demo_small_existing show ?thesis
    by (intro conjI)
qed

section \<open>The attempt loop\<close>



lemma choice_keeps:
  "choice en xs w = (r, w') \<Longrightarrow> trace w' = trace w \<and> text_of w' = text_of w"
  by (auto simp: choice_def split: if_splits)

lemma choice_Inr_member:
  "choice en xs w = (Inr x, w') \<Longrightarrow> x \<in> set xs"
  by (auto simp: choice_def split: if_splits)

lemma randint_keeps:
  "randint en a b w = (r, w') \<Longrightarrow> trace w' = trace w \<and> text_of w' = text_of w"
  by (auto simp: randint_def split: if_splits)

lemma select_reads:
  assumes "select_random_code_section en fp w = (r, w')"
  shows "trace w' = trace w @ [EvRead fp] \<and> text_of w' = text_of w \<and>
         (\<forall>sec. r = Some sec \<longrightarrow> file_path sec = fp)"
proof -
  let ?w = "w\<lparr>trace := trace w @ [EvRead fp]\<rparr>"
  show ?thesis
  proof (cases "text_of w fp")
    case (Inl e)
    with assms show ?thesis by (auto simp: select_random_code_section_def)
  next
    case (Inr body)
    let ?ml = "meaningful_lines (split_nl body)"
    show ?thesis
    proof (cases "length ?ml < 3")
      case True
      with assms Inr show ?thesis by (auto simp: select_random_code_section_def Let_def)
    next
      case False
      obtain r1 w1 where r1: "randint en 2 (min 3 (int (length ?ml))) ?w = (r1, w1)"
        by (cases "randint en 2 (min 3 (int (length ?ml))) ?w") auto
      from randint_keeps [OF r1] have k1: "trace w1 = trace w @ [EvRead fp]" "text_of w1 = text_of w"
        by simp_all
      show ?thesis
      proof (cases r1)
        case (Inl e)
        with assms Inr False r1 k1 show ?thesis
          by (auto simp: select_random_code_section_def Let_def)
      next
        case size: (Inr section_size)
        obtain r2 w2 where r2: "randint en 0 (int (length ?ml) - section_size) w1 = (r2, w2)"
          by (cases "randint en 0 (int (length ?ml) - section_size) w1") auto
        from randint_keeps [OF r2] k1
        have k2: "trace w2 = trace w @ [EvRead fp]" "text_of w2 = text_of w"
          by simp_all
        from assms Inr False r1 size r2 k2 show ?thesis
          by (cases r2) (auto simp: select_random_code_section_def Let_def)
      qed
    qed
  qed
qed

lemma call_openai_calls:
  "call_openai en prompt w = (r, w') \<Longrightarrow>
     trace w' = trace w @ [EvProvider prompt] \<and> text_of w' = text_of w"
  by (auto simp: call_openai_def Let_def split: option.splits if_splits)








text \<open>
  Claim C6.  In a pass of the loop where a file was picked, a section selected, a
  modification type chosen and the provider returned a text, if that text, stripped, is
  the stripped join of the selected lines, the pass ends at \<open>continue\<close>: the only calls
  made are the read of the file and the request to the provider, so nothing is written
  and git is not run; no file's text changes; and the loop goes on with the passes that
  are left.
\<close>

theorem attempt_rejects_unchanged_code:
  assumes pick: "choice en existing_files w = (Inr random_file, w1)"
      and sel: "select_random_code_section en random_file w1 = (Some sec, w2)"
      and kind: "choice en (modification_types cfg) w2 = (Inr mt, w3)"
      and reply: "call_openai en (get_improvement_prompt sec mt) w3 = (Some improved_code, w4)"
      and same: "strip improved_code = strip (join_nl (map snd (lines sec)))"
  shows "attempt en cfg repo existing_files w = (Inr Continue, w4) \<and>
         trace w4 = trace w @ [EvRead random_file, EvProvider (get_improvement_prompt sec mt)] \<and>
         text_of w4 = text_of w \<and>
         attempts en cfg repo existing_files (Suc n) w =
           attempts en cfg repo existing_files n w4"
proof -
  have a: "attempt en cfg repo existing_files w = (Inr Continue, w4)"
    by (simp add: attempt_def pick sel kind reply same)
  note k1 = choice_keeps [OF pick]
  note k2 = select_reads [OF sel]
  note k3 = choice_keeps [OF kind]
  note k4 = call_openai_calls [OF reply]
  have t: "trace w4 = trace w @ [EvRead random_file, EvProvider (get_improvement_prompt sec mt)]"
    using k1 k2 k3 k4 by simp
  have f: "text_of w4 = text_of w"
    using k1 k2 k3 k4 by simp
  have l: "attempts en cfg repo existing_files (Suc n) w =
           attempts en cfg repo existing_files n w4"
    by (simp add: a)
  from a t f l show ?thesis by (intro conjI)
qed


section \<open>Runs on the small repository\<close>

lemma demo_language: "detect_language ''/repo/app.py'' = ''python''"
  by (simp add: detect_language_def path_suffix_def path_name_def lower_def lower_char_def Let_def)

lemma demo_first_two:
  "take 2 (meaningful_lines (split_nl demo_text)) =
     [(0, ''import os, sys''), (2, ''def alpha(x, y):'')]"
  by (simp add: demo_meaningful)

lemma demo_count: "length (meaningful_lines (split_nl demo_text)) = 10"
  unfolding demo_meaningful by simp

lemma demo_pick:
  assumes "rand en = (\<lambda>n. 0)"
  shows "choice en [''/repo/app.py''] demo_world = (Inr ''/repo/app.py'', demo_world\<lparr>draws := 1\<rparr>)"
  by (simp add: choice_def assms demo_draws)

lemma demo_select:
  assumes "rand en = (\<lambda>n. 0)"
  shows "select_random_code_section en ''/repo/app.py'' (demo_world\<lparr>draws := 1\<rparr>) =
           (Some first_section, demo_world\<lparr>trace := [EvRead ''/repo/app.py''], draws := 3\<rparr>)"
  unfolding select_random_code_section_def Let_def
  by (simp add: demo_text_app demo_trace demo_count randint_def assms demo_first_two
      demo_language first_section_def)

lemma demo_kind:
  assumes "rand en = (\<lambda>n. 0)"
  shows "choice en (modification_types demo_config)
           (demo_world\<lparr>trace := [EvRead ''/repo/app.py''], draws := 3\<rparr>) =
         (Inr ''add_documentation'',
          demo_world\<lparr>trace := [EvRead ''/repo/app.py''], draws := 4\<rparr>)"
  by (simp add: choice_def assms demo_config_def)


lemma echo_reply:
  "call_openai echo_env prompt (demo_world\<lparr>trace := [EvRead ''/repo/app.py''], draws := 4\<rparr>) =
     (Some (join_nl [''import os, sys'', ''def alpha(x, y):'']),
      demo_world\<lparr>trace := [EvRead ''/repo/app.py'', EvProvider prompt], draws := 4\<rparr>)"
  by (simp add: call_openai_def echo_env_def strip_def is_space_def newline_def
      sub_fence_open_def sub_fence_close_def endswith_def Let_def)

lemma echo_rand: "rand echo_env = (\<lambda>n. 0)"
  by (simp add: echo_env_def)


theorem attempt_rejects_unchanged_code_witness:
  "choice echo_env [''/repo/app.py''] demo_world =
     (Inr ''/repo/app.py'', demo_world\<lparr>draws := 1\<rparr>) \<and>
   select_random_code_section echo_env ''/repo/app.py'' (demo_world\<lparr>draws := 1\<rparr>) =
     (Some first_section, demo_world\<lparr>trace := [EvRead ''/repo/app.py''], draws := 3\<rparr>) \<and>
   choice echo_env (modification_types demo_config)
     (demo_world\<lparr>trace := [EvRead ''/repo/app.py''], draws := 3\<rparr>) =
     (Inr ''add_documentation'', demo_world\<lparr>trace := [EvRead ''/repo/app.py''], draws := 4\<rparr>) \<and>
   call_openai echo_env (get_improvement_prompt first_section ''add_documentation'')
     (demo_world\<lparr>trace := [EvRead ''/repo/app.py''], draws := 4\<rparr>) =
     (Some (join_nl [''import os, sys'', ''def alpha(x, y):'']),
      demo_world\<lparr>trace := [EvRead ''/repo/app.py'',
                   EvProvider (get_improvement_prompt first_section ''add_documentation'')],
                 draws := 4\<rparr>) \<and>
   strip (join_nl [''import os, sys'', ''def alpha(x, y):'']) =
     strip (join_nl (map snd (lines first_section))) \<and>
   attempt echo_env demo_config ''/repo'' [''/repo/app.py''] demo_world =
     (Inr Continue,
      demo_world\<lparr>trace := [EvRead ''/repo/app.py'',
                   EvProvider (get_improvement_prompt first_section ''add_documentation'')],
                 draws := 4\<rparr>) \<and>
   attempts echo_env demo_config ''/repo'' [''/repo/app.py''] (Suc 4) demo_world =
     attempts echo_env demo_config ''/repo'' [''/repo/app.py''] 4
       (demo_world\<lparr>trace := [EvRead ''/repo/app.py'',
                   EvProvider (get_improvement_prompt first_section ''add_documentation'')],
                 draws := 4\<rparr>)"
proof -
  note h1 = demo_pick [OF echo_rand]
  note h2 = demo_select [OF echo_rand]
  note h3 = demo_kind [OF echo_rand]
  note h4 = echo_reply [of "get_improvement_prompt first_section ''add_documentation''"]
  have h5: "strip (join_nl [''import os, sys'', ''def alpha(x, y):'']) =
     strip (join_nl (map snd (lines first_section)))"
    by (simp add: first_section_def)
  note c = attempt_rejects_unchanged_code [OF h1 h2 h3 h4 h5, of "''/repo''" 4]
  from h1 h2 h3 h4 h5 c [THEN conjunct1] c [THEN conjunct2, THEN conjunct2, THEN conjunct2]
  show ?thesis
    by (intro conjI)
qed








subsection \<open>A run that commits with the second modification type\<close>









subsection \<open>A run that gives up after five attempts\<close>





end
